theory Spec2Isabelle
  imports Main
begin

section \<open>Text as Python sees it\<close>

text \<open>
  A Python \<open>str\<close> is a sequence of Unicode code points. A character is
  represented by its code point (what \<open>ord\<close> returns), a string by the list of
  its code points, so \<open>len\<close> is \<open>length\<close> and indexing is \<open>!\<close>.
\<close>

type_synonym uchar = nat
type_synonym ustr = "uchar list"

definition ord :: "uchar \<Rightarrow> nat" where
  "ord c = c"

text \<open>ASCII literals are written as Isabelle strings and converted.\<close>

definition u :: "string \<Rightarrow> ustr" where
  "u s = map of_char s"

text \<open>
  The character tables of the interpreter (the Unicode character database behind
  \<open>str.isalpha\<close>, \<open>str.isupper\<close>, the regular expression classes \<open>\d\<close>
  and \<open>\w\<close>, and case-insensitive matching) are not part of the scripts. They are a
  parameter of every function that consults them:
  \<^item> \<open>isalpha\<close>, \<open>isdecimal\<close>, \<open>isalnum\<close>: the per-character tests behind
    \<open>str.isalpha\<close>, \<open>\d\<close> and \<open>\w\<close>;
  \<^item> \<open>islower\<close>, \<open>isupper\<close>, \<open>istitle\<close>: the per-character case tests that
    \<open>str.isupper\<close> loops over;
  \<^item> \<open>tolower\<close>: the simple lower-case mapping that \<open>re.IGNORECASE\<close> applies to
    the subject character;
  \<^item> \<open>ignorecase_fixes\<close>: for a lower-case pattern character, the further
    characters that the regular expression compiler lets it match (dotless i for
    \<open>i\<close>, and so on).
\<close>

record unicode_db =
  isalpha :: "uchar \<Rightarrow> bool"
  isdecimal :: "uchar \<Rightarrow> bool"
  isalnum :: "uchar \<Rightarrow> bool"
  islower :: "uchar \<Rightarrow> bool"
  isupper :: "uchar \<Rightarrow> bool"
  istitle :: "uchar \<Rightarrow> bool"
  tolower :: "uchar \<Rightarrow> uchar"
  ignorecase_fixes :: "uchar \<Rightarrow> uchar list"

text \<open>
  Python's white space (\<open>str.isspace\<close>, \<open>str.strip\<close> without argument, and
  \<open>\s\<close> in a \<open>str\<close> pattern): a short fixed list.
\<close>

definition isspace :: "uchar \<Rightarrow> bool" where
  "isspace c = (c \<in> set [9, 10, 11, 12, 13, 28, 29, 30, 31, 32, 133, 160, 5760,
     8192, 8193, 8194, 8195, 8196, 8197, 8198, 8199, 8200, 8201, 8202,
     8232, 8233, 8239, 8287, 12288])"

definition strip :: "ustr \<Rightarrow> ustr" where
  "strip s = rev (dropWhile isspace (rev (dropWhile isspace s)))"

text \<open>\<open>str.isalpha\<close>: every character alphabetic, and at least one character.\<close>

definition str_isalpha :: "unicode_db \<Rightarrow> ustr \<Rightarrow> bool" where
  "str_isalpha U s = (s \<noteq> [] \<and> list_all (isalpha U) s)"

text \<open>
  \<open>str.isupper\<close>: no lower-case or title-case character, and at least one
  upper-case character. The loop of the interpreter, with its flag \<open>cased\<close>.
\<close>

fun isupper_loop :: "unicode_db \<Rightarrow> bool \<Rightarrow> ustr \<Rightarrow> bool" where
  "isupper_loop U cased [] = cased"
| "isupper_loop U cased (ch # s) =
     (if islower U ch \<or> istitle U ch then False
      else isupper_loop U (cased \<or> isupper U ch) s)"

definition str_isupper :: "unicode_db \<Rightarrow> ustr \<Rightarrow> bool" where
  "str_isupper U s = isupper_loop U False s"

text \<open>
  \<open>str.upper\<close> is applied by the script only to words matched by \<open>[A-Za-z]+\<close>;
  on ASCII letters it is the ASCII mapping, and it leaves every other ASCII character
  alone.
\<close>

definition upper :: "ustr \<Rightarrow> ustr" where
  "upper w = map (\<lambda>c. if 97 \<le> c \<and> c \<le> 122 then c - 32 else c) w"

text \<open>\<open>hex\<close> of a non-negative integer: \<open>0x\<close> and lower-case digits.\<close>

definition hexdigit :: "nat \<Rightarrow> uchar" where
  "hexdigit d = (if d < 10 then 48 + d else 87 + d)"

fun hex_digits :: "nat \<Rightarrow> ustr" where
  "hex_digits n = (if n < 16 then [hexdigit n] else hex_digits (n div 16) @ [hexdigit (n mod 16)])"

declare hex_digits.simps [simp del]

definition hex :: "nat \<Rightarrow> ustr" where
  "hex n = u ''0x'' @ hex_digits n"

section \<open>The regular expressions of the scripts\<close>

text \<open>
  The patterns of the scripts are sequences of anchors, single characters, character
  sets and repetitions of a character set. A pattern is modelled by its parsed form;
  matching is the backtracking search of \<open>re\<close>: a greedy repetition first tries to
  take one more character and gives it back when the rest of the pattern fails.

  A set compiled under \<open>re.IGNORECASE\<close> that holds a letter is matched against
  the lower-cased subject character (\<open>InIgnore\<close>); a set without a letter, such as
  \<open>\d\<close> or \<open>\s\<close>, is matched as it stands (\<open>In\<close>) also under that flag.
\<close>

datatype item = Ch uchar | Range uchar uchar | Digit | Word | Space

datatype cset = In "item list" | NotIn "item list" | InIgnore "item list"

datatype atom = Bol | Eol | Boundary | One cset | Rep cset nat "nat option"

type_synonym regex = "atom list"

fun item_matches :: "unicode_db \<Rightarrow> item \<Rightarrow> uchar \<Rightarrow> bool" where
  "item_matches U (Ch l) c = (c = l)"
| "item_matches U (Range a b) c = (a \<le> c \<and> c \<le> b)"
| "item_matches U Digit c = isdecimal U c"
| "item_matches U Word c = (isalnum U c \<or> c = 95)"
| "item_matches U Space c = isspace c"

definition literal_ignore :: "unicode_db \<Rightarrow> uchar \<Rightarrow> uchar \<Rightarrow> bool" where
  "literal_ignore U l c' =
     (c' = tolower U l \<or> c' \<in> set (ignorecase_fixes U (tolower U l)))"

fun item_matches_ignore :: "unicode_db \<Rightarrow> item \<Rightarrow> uchar \<Rightarrow> bool" where
  "item_matches_ignore U (Ch l) c' = literal_ignore U l c'"
| "item_matches_ignore U (Range a b) c' = list_ex (\<lambda>l. literal_ignore U l c') [a..<Suc b]"
| "item_matches_ignore U Digit c' = isdecimal U c'"
| "item_matches_ignore U Word c' = (isalnum U c' \<or> c' = 95)"
| "item_matches_ignore U Space c' = isspace c'"

fun cset_matches :: "unicode_db \<Rightarrow> cset \<Rightarrow> uchar \<Rightarrow> bool" where
  "cset_matches U (In items) c = list_ex (\<lambda>it. item_matches U it c) items"
| "cset_matches U (NotIn items) c = (\<not> list_ex (\<lambda>it. item_matches U it c) items)"
| "cset_matches U (InIgnore items) c =
     list_ex (\<lambda>it. item_matches_ignore U it (tolower U c)) items"

text \<open>
  \<open>\b\<close>: exactly one of the character before and the character after the position
  is a word character; outside the string counts as not a word character.
\<close>

definition is_word :: "unicode_db \<Rightarrow> uchar option \<Rightarrow> bool" where
  "is_word U x = (case x of None \<Rightarrow> False | Some c \<Rightarrow> item_matches U Word c)"

definition at_boundary :: "unicode_db \<Rightarrow> uchar option \<Rightarrow> ustr \<Rightarrow> bool" where
  "at_boundary U prev s =
     (is_word U prev \<noteq> is_word U (case s of [] \<Rightarrow> None | c # _ \<Rightarrow> Some c))"

text \<open>
  \<open>re_at U p prev s\<close> matches the pattern \<open>p\<close> at a position of the subject:
  \<open>prev\<close> is the character before the position (\<open>None\<close> at the start of the
  string) and \<open>s\<close> the text from the position on. The result is the text left after
  the first match that the backtracking search finds, or \<open>None\<close>. \<open>$\<close> matches at
  the end and before a final line feed.
\<close>

fun re_at :: "unicode_db \<Rightarrow> regex \<Rightarrow> uchar option \<Rightarrow> ustr \<Rightarrow> ustr option" where
  "re_at U [] prev s = Some s"
| "re_at U (Bol # p) prev s = (if prev = None then re_at U p prev s else None)"
| "re_at U (Eol # p) prev s = (if s = [] \<or> s = [10] then re_at U p prev s else None)"
| "re_at U (Boundary # p) prev s = (if at_boundary U prev s then re_at U p prev s else None)"
| "re_at U (One cs # p) prev [] = None"
| "re_at U (One cs # p) prev (c # s) =
     (if cset_matches U cs c then re_at U p (Some c) s else None)"
| "re_at U (Rep cs lo hi # p) prev [] = (if lo = 0 then re_at U p prev [] else None)"
| "re_at U (Rep cs lo hi # p) prev (c # s) =
     (case (if hi \<noteq> Some 0 \<and> cset_matches U cs c
            then re_at U (Rep cs (lo - 1) (map_option (\<lambda>h. h - 1) hi) # p) (Some c) s
            else None) of
        Some r \<Rightarrow> Some r
      | None \<Rightarrow> if lo = 0 then re_at U p prev (c # s) else None)"

text \<open>\<open>re.match\<close> (as a truth value): a match at the start of the string.\<close>

definition re_match :: "unicode_db \<Rightarrow> regex \<Rightarrow> ustr \<Rightarrow> bool" where
  "re_match U p s = (re_at U p None s \<noteq> None)"

text \<open>\<open>re.search\<close> (as a truth value): a match at some position.\<close>

fun re_search_from :: "unicode_db \<Rightarrow> regex \<Rightarrow> uchar option \<Rightarrow> ustr \<Rightarrow> bool" where
  "re_search_from U p prev [] = (re_at U p prev [] \<noteq> None)"
| "re_search_from U p prev (c # s) =
     (re_at U p prev (c # s) \<noteq> None \<or> re_search_from U p (Some c) s)"

definition re_search :: "unicode_db \<Rightarrow> regex \<Rightarrow> ustr \<Rightarrow> bool" where
  "re_search U p s = re_search_from U p None s"

text \<open>
  \<open>re.findall\<close> for a pattern without groups: the matched texts, scanning from the
  left, each search starting where the last match ended. (The one pattern the script
  passes to it matches no empty string; an empty match is recorded and the scan moves
  on by one character.)
\<close>

function re_findall_from :: "unicode_db \<Rightarrow> regex \<Rightarrow> uchar option \<Rightarrow> ustr \<Rightarrow> ustr list" where
  "re_findall_from U p prev [] = (if re_at U p prev [] \<noteq> None then [[]] else [])"
| "re_findall_from U p prev (c # s) =
     (case re_at U p prev (c # s) of
        None \<Rightarrow> re_findall_from U p (Some c) s
      | Some r \<Rightarrow>
          if length r < Suc (length s)
          then take (Suc (length s) - length r) (c # s)
               # re_findall_from U p (Some ((c # s) ! (length s - length r))) r
          else [] # re_findall_from U p (Some c) s)"
  by pat_completeness auto
termination
  by (relation "measure (\<lambda>(U, p, prev, s). length s)") auto

definition re_findall :: "unicode_db \<Rightarrow> regex \<Rightarrow> ustr \<Rightarrow> ustr list" where
  "re_findall U p s = re_findall_from U p None s"

section \<open>The anomaly finder (scripts/find\_anomalies.py)\<close>

subsection \<open>Character sets and chapter patterns\<close>

text \<open>
  \<open>RUSSIAN_CHARS\<close>: the 33 upper-case and 33 lower-case Russian letters, in the
  order of the source (U+0426 twice, U+0401 and U+0451 after U+0415 and U+0435), and
  the ten ASCII digits.
\<close>

definition RUSSIAN_CHARS :: "uchar set" where
  "RUSSIAN_CHARS = set [1040, 1041, 1042, 1043, 1044, 1045, 1025, 1046, 1047, 1048,
     1049, 1050, 1051, 1052, 1053, 1054, 1055, 1056, 1057, 1058, 1059, 1060, 1061,
     1062, 1062, 1063, 1064, 1065, 1066, 1067, 1068, 1069, 1070, 1071,
     1072, 1073, 1074, 1075, 1076, 1077, 1105, 1078, 1079, 1080, 1081, 1082, 1083,
     1084, 1085, 1086, 1087, 1088, 1089, 1090, 1091, 1092, 1093, 1094, 1095, 1096,
     1097, 1098, 1099, 1100, 1101, 1102, 1103,
     48, 49, 50, 51, 52, 53, 54, 55, 56, 57]"

text \<open>
  \<open>PUNCTUATION\<close>: \<open>. , ; : ! ? - " ( ) [ ] { }\<close>, the guillemets U+00AB and
  U+00BB, the dashes U+2014 and U+2013 and the ellipsis U+2026.
\<close>

definition PUNCTUATION :: "uchar set" where
  "PUNCTUATION = set [46, 44, 59, 58, 33, 63, 45, 34, 40, 41, 91, 93, 123, 125,
     171, 187, 8212, 8211, 8230]"

definition WHITESPACE :: "uchar set" where
  "WHITESPACE = set [32, 10, 13, 9]"

definition ALLOWED_CHARS :: "uchar set" where
  "ALLOWED_CHARS = RUSSIAN_CHARS \<union> PUNCTUATION \<union> WHITESPACE"

text \<open>\<open>[IVXLCDM]\<close> and \<open>[IVXLCDM\d]\<close>.\<close>

definition roman_items :: "item list" where
  "roman_items = map Ch (u ''IVXLCDM'')"

text \<open>A word of the pattern, letter by letter, under \<open>re.IGNORECASE\<close>.\<close>

definition literal_word :: "ustr \<Rightarrow> regex" where
  "literal_word w = map (\<lambda>l. One (InIgnore [Ch l])) w"

text \<open>
  \<open>CHAPTER_PATTERNS\<close>, as compiled with \<open>re.IGNORECASE\<close> (the flag that
  \<open>is_likely_chapter_title\<close> passes):
  \<^item> \<open>^[IVXLCDM]+$\<close>
  \<^item> \<open>^GLAVA\s+[IVXLCDM\d]+\<close>, the word being U+0413 U+041B U+0410 U+0412 U+0410
  \<^item> \<open>^ChAST'\s+[IVXLCDM\d]+\<close>, the word being U+0427 U+0410 U+0421 U+0422 U+042C
  \<^item> \<open>^[U+0413 U+0427]\s*[IVXLCDM\d]+\<close>
  \<^item> \<open>^\d+$\<close>
\<close>

definition CHAPTER_PATTERNS :: "regex list" where
  "CHAPTER_PATTERNS =
    [ [Bol, Rep (InIgnore roman_items) 1 None, Eol],
      Bol # literal_word [1043, 1051, 1040, 1042, 1040]
        @ [Rep (In [Space]) 1 None, Rep (InIgnore (roman_items @ [Digit])) 1 None],
      Bol # literal_word [1063, 1040, 1057, 1058, 1068]
        @ [Rep (In [Space]) 1 None, Rep (InIgnore (roman_items @ [Digit])) 1 None],
      [Bol, One (InIgnore [Ch 1043, Ch 1063]), Rep (In [Space]) 0 None,
       Rep (InIgnore (roman_items @ [Digit])) 1 None],
      [Bol, Rep (In [Digit]) 1 None, Eol] ]"

subsection \<open>The line tests\<close>

definition is_likely_chapter_title :: "unicode_db \<Rightarrow> ustr \<Rightarrow> bool" where
  "is_likely_chapter_title U line =
     (let stripped = strip line in
      if stripped = [] then False
      else if list_ex (\<lambda>pattern. re_match U pattern stripped) CHAPTER_PATTERNS then True
      else if length stripped < 30 \<and> str_isupper U stripped
              \<and> str_isalpha U (filter (\<lambda>c. c \<noteq> 32) stripped) then True
      else False)"

definition base64_chars :: "uchar set" where
  "base64_chars =
     set (u ''ABCDEFGHIJKLMNOPQRSTUVWXYZabcdefghijklmnopqrstuvwxyz0123456789+/='')"

definition is_base64_like :: "ustr \<Rightarrow> bool" where
  "is_base64_like text =
     (if length text < 40 then False
      else
        let text_chars = set (strip text) in
        if text_chars \<subseteq> base64_chars then
          (if (61 \<in> set text \<or> 47 \<in> set text) \<and> length (strip text) > 40 then True
           else False)
        else False)"

text \<open>
  The patterns of \<open>is_normal_latin_usage\<close>: \<open>^[IVXLCDM]+$\<close> under
  \<open>re.IGNORECASE\<close>, \<open>^\([a-zA-Z]{1,4}\)$\<close> and \<open>\b[A-Za-z]+\b\<close>.
\<close>

definition roman_pattern :: regex where
  "roman_pattern = [Bol, Rep (InIgnore roman_items) 1 None, Eol]"

definition bracket_pattern :: regex where
  "bracket_pattern =
     [Bol, One (In [Ch 40]), Rep (In [Range 97 122, Range 65 90]) 1 (Some 4),
      One (In [Ch 41]), Eol]"

definition word_pattern :: regex where
  "word_pattern = [Boundary, Rep (In [Range 65 90, Range 97 122]) 1 None, Boundary]"

definition common_abbrevs :: "ustr set" where
  "common_abbrevs = set [u ''ISBN'', u ''ISBN:'', u ''http'', u ''https'', u ''www'',
     u ''com'', u ''ru'', u ''org'', u ''net'']"

definition is_normal_latin_usage :: "unicode_db \<Rightarrow> ustr \<Rightarrow> bool" where
  "is_normal_latin_usage U line =
     (let stripped = strip line in
      if re_match U roman_pattern stripped then True
      else if re_match U bracket_pattern stripped then True
      else
        let words = re_findall U word_pattern line in
        if words \<noteq> [] \<and> list_all (\<lambda>w. upper w \<in> common_abbrevs \<or> length w \<le> 3) words
        then True
        else False)"

subsection \<open>Anomaly records and the classifier\<close>

datatype kind = token_like | latin_in_russian | unusual_symbols | multiple_unusual_chars

text \<open>
  The \<open>chars\<close> entry of a record: pairs (offset, character) in a
  \<open>latin_in_russian\<close> record, triples (offset, character, hexadecimal code) in an
  \<open>unusual_symbols\<close> record; the other two kinds have no such entry.
\<close>

datatype chars_detail =
  LatinChars "(nat \<times> uchar) list"
| OtherChars "(nat \<times> uchar \<times> ustr) list"

record anomaly =
  a_type :: kind
  a_line_num :: int
  a_chars :: "chars_detail option"
  a_line :: ustr

text \<open>
  \<open>normal_symbols\<close>: U+2014, U+2013, U+2026, U+2039, U+203A, U+201A, U+201E,
  U+00AB, U+00BB, the degree sign, the numero sign and the section sign.
\<close>

definition normal_symbols :: "uchar set" where
  "normal_symbols = set [8212, 8211, 8230, 8249, 8250, 8218, 8222, 171, 187, 176, 8470, 167]"

text \<open>
  The pattern of the last check: three or more characters in a row, none of them a
  word character, white space, in U+0400..U+04FF, or one of
  \<open>. , ; : ! ? - " ( ) [ ] { }\<close>, U+00AB, U+00BB, U+2014, U+2013, U+2026, U+00B0,
  U+2116, U+00A7.
\<close>

definition unusual_pattern :: regex where
  "unusual_pattern =
     [Rep (NotIn ([Word, Space, Range 1024 1279]
        @ map Ch [46, 44, 59, 58, 33, 63, 45, 34, 40, 41, 91, 93, 123, 125,
                  171, 187, 8212, 8211, 8230, 176, 8470, 167])) 3 None]"

text \<open>
  The lists that \<open>find_anomalies_in_line\<close> builds from the line, under the names
  of its local variables: the characters outside \<open>ALLOWED_CHARS\<close> with their
  offsets and codes, whether the line has a character of \<open>RUSSIAN_CHARS\<close>, the
  alphabetic characters below code 128 among the suspicious ones, and the remaining
  suspicious characters without the normal symbols.
\<close>

definition suspicious_chars :: "ustr \<Rightarrow> (nat \<times> uchar \<times> nat) list" where
  "suspicious_chars line =
     map (\<lambda>(i, char). (i, char, ord char))
       (filter (\<lambda>(i, char). char \<notin> ALLOWED_CHARS) (enumerate 0 line))"

definition has_russian :: "ustr \<Rightarrow> bool" where
  "has_russian line = list_ex (\<lambda>c. c \<in> RUSSIAN_CHARS) line"

definition latin_chars :: "unicode_db \<Rightarrow> ustr \<Rightarrow> (nat \<times> uchar) list" where
  "latin_chars U line =
     map (\<lambda>(i, c, code). (i, c))
       (filter (\<lambda>(i, c, code). isalpha U c \<and> ord c < 128) (suspicious_chars line))"

definition other_chars :: "unicode_db \<Rightarrow> ustr \<Rightarrow> (nat \<times> uchar \<times> ustr) list" where
  "other_chars U line =
     filter (\<lambda>(i, c, hex_val). c \<notin> normal_symbols)
       (map (\<lambda>(i, c, code). (i, c, hex (ord c)))
         (filter (\<lambda>(i, c, code). \<not> (isalpha U c \<and> ord c < 128)) (suspicious_chars line)))"

definition find_anomalies_in_line :: "unicode_db \<Rightarrow> ustr \<Rightarrow> int \<Rightarrow> anomaly list" where
  "find_anomalies_in_line U line line_num =
     (if strip line = [] \<or> is_likely_chapter_title U line then []
      else
        let stripped = strip line in
        if is_base64_like stripped then
          [\<lparr>a_type = token_like, a_line_num = line_num, a_chars = None, a_line = stripped\<rparr>]
        else
          (if suspicious_chars line \<noteq> [] \<and> has_russian line then
             (if latin_chars U line \<noteq> [] \<and> \<not> is_normal_latin_usage U line
                 \<and> length (latin_chars U line) > 3
              then [\<lparr>a_type = latin_in_russian, a_line_num = line_num,
                      a_chars = Some (LatinChars (take 10 (latin_chars U line))),
                      a_line = stripped\<rparr>]
              else [])
             @ (if other_chars U line \<noteq> [] then
                  [\<lparr>a_type = unusual_symbols, a_line_num = line_num,
                    a_chars = Some (OtherChars (take 10 (other_chars U line))),
                    a_line = stripped\<rparr>]
                else [])
           else [])
          @ (if re_search U unusual_pattern line then
               [\<lparr>a_type = multiple_unusual_chars, a_line_num = line_num,
                 a_chars = None, a_line = stripped\<rparr>]
             else []))"

subsection \<open>A character table to run the functions on\<close>

text \<open>
  \<open>ucd_basic\<close> agrees with the interpreter's tables on Basic Latin
  (U+0000..U+007F), on the Cyrillic letters U+0400..U+045F and on the punctuation and
  symbols that the script's own sets list (none of which is a letter, a digit or
  cased); it calls every other character an uncased symbol. It is used only to run
  the functions on concrete lines made of such characters.
\<close>

definition ucd_basic :: unicode_db where
  "ucd_basic =
     \<lparr>isalpha = (\<lambda>c. (65 \<le> c \<and> c \<le> 90) \<or> (97 \<le> c \<and> c \<le> 122) \<or> (1024 \<le> c \<and> c \<le> 1119)),
      isdecimal = (\<lambda>c. 48 \<le> c \<and> c \<le> 57),
      isalnum = (\<lambda>c. (48 \<le> c \<and> c \<le> 57) \<or> (65 \<le> c \<and> c \<le> 90) \<or> (97 \<le> c \<and> c \<le> 122)
                     \<or> (1024 \<le> c \<and> c \<le> 1119)),
      islower = (\<lambda>c. (97 \<le> c \<and> c \<le> 122) \<or> (1072 \<le> c \<and> c \<le> 1119)),
      isupper = (\<lambda>c. (65 \<le> c \<and> c \<le> 90) \<or> (1024 \<le> c \<and> c \<le> 1071)),
      istitle = (\<lambda>c. False),
      tolower = (\<lambda>c. if (65 \<le> c \<and> c \<le> 90) \<or> (1040 \<le> c \<and> c \<le> 1071) then c + 32
                     else if 1024 \<le> c \<and> c \<le> 1039 then c + 80 else c),
      ignorecase_fixes = (\<lambda>l. if l = 105 then [305] else if l = 115 then [383]
                     else if l = 1074 then [7296] else if l = 1076 then [7297]
                     else if l = 1086 then [7298] else if l = 1089 then [7299]
                     else if l = 1090 then [7300, 7301] else if l = 1098 then [7302]
                     else [])\<rparr>"

subsection \<open>Scanning a file\<close>

text \<open>
  The file system is a parameter: \<open>fs filepath enc\<close> is what opening the file in
  text mode with the encoding \<open>enc\<close> and calling \<open>readlines\<close> does, either the
  list of lines (each with its line end), a \<open>UnicodeDecodeError\<close>, or any other
  exception; an exception carries its text.
\<close>

datatype encoding = utf_8 | cp1251

datatype 'a attempt = Returned 'a | UnicodeDecodeError ustr | OtherException ustr

type_synonym 'p filesystem = "'p \<Rightarrow> encoding \<Rightarrow> ustr list attempt"

record file_result =
  total_lines :: nat
  anomalies :: "anomaly list"

text \<open>
  The inner loop over the records of one line: a record is kept unless its key
  (line number, kind) is already in \<open>seen_lines\<close>.
\<close>

fun add_anomalies ::
  "int \<Rightarrow> anomaly list \<Rightarrow> (int \<times> kind) set \<times> anomaly list
     \<Rightarrow> (int \<times> kind) set \<times> anomaly list" where
  "add_anomalies line_num [] (seen_lines, all_anomalies) = (seen_lines, all_anomalies)"
| "add_anomalies line_num (anomaly # rest) (seen_lines, all_anomalies) =
     (let line_key = (line_num, a_type anomaly) in
      if line_key \<notin> seen_lines
      then add_anomalies line_num rest (insert line_key seen_lines, all_anomalies @ [anomaly])
      else add_anomalies line_num rest (seen_lines, all_anomalies))"

text \<open>The outer loop, \<open>for line_num, line in enumerate(lines, 1)\<close>.\<close>

fun scan_lines ::
  "unicode_db \<Rightarrow> int \<Rightarrow> ustr list \<Rightarrow> (int \<times> kind) set \<times> anomaly list
     \<Rightarrow> (int \<times> kind) set \<times> anomaly list" where
  "scan_lines U line_num [] st = st"
| "scan_lines U line_num (line # rest) st =
     scan_lines U (line_num + 1) rest
       (add_anomalies line_num (find_anomalies_in_line U line line_num) st)"

text \<open>The part of \<open>analyze_file\<close> after the file is read.\<close>

definition analyze_lines :: "unicode_db \<Rightarrow> ustr list \<Rightarrow> file_result" where
  "analyze_lines U lines =
     \<lparr>total_lines = length lines, anomalies = snd (scan_lines U 1 lines ({}, []))\<rparr>"

text \<open>
  The two error texts: \<open>Ne udalos' prochitat' fajl:\<close> (after the second attempt)
  and \<open>Oshibka pri chtenii fajla:\<close> (any other failure of the first attempt), each
  followed by the text of the exception.
\<close>

definition could_not_read :: ustr where
  "could_not_read = [1053, 1077, 32, 1091, 1076, 1072, 1083, 1086, 1089, 1100, 32,
     1087, 1088, 1086, 1095, 1080, 1090, 1072, 1090, 1100, 32, 1092, 1072, 1081, 1083, 58, 32]"

definition error_reading :: ustr where
  "error_reading = [1054, 1096, 1080, 1073, 1082, 1072, 32, 1087, 1088, 1080, 32,
     1095, 1090, 1077, 1085, 1080, 1080, 32, 1092, 1072, 1081, 1083, 1072, 58, 32]"

text \<open>
  \<open>analyze_file\<close>: \<open>Inl\<close> is the dictionary with the key \<open>error\<close>, \<open>Inr\<close>
  the one with \<open>total_lines\<close> and \<open>anomalies\<close>. The inner \<open>except Exception\<close>
  catches a second \<open>UnicodeDecodeError\<close> as well.
\<close>

definition analyze_file :: "unicode_db \<Rightarrow> 'p filesystem \<Rightarrow> 'p \<Rightarrow> ustr + file_result" where
  "analyze_file U fs filepath =
     (case fs filepath utf_8 of
        Returned lines \<Rightarrow> Inr (analyze_lines U lines)
      | UnicodeDecodeError _ \<Rightarrow>
          (case fs filepath cp1251 of
             Returned lines \<Rightarrow> Inr (analyze_lines U lines)
           | UnicodeDecodeError e \<Rightarrow> Inl (could_not_read @ e)
           | OtherException e \<Rightarrow> Inl (could_not_read @ e))
      | OtherException e \<Rightarrow> Inl (error_reading @ e))"

subsection \<open>The run over all files\<close>

text \<open>
  What \<open>main\<close> prints per file, without the layout: the error of a file that could
  not be read, or the heading of a file with anomalies (its line count; the examples
  printed under it are taken from the same anomaly list). The state of the loop is
  \<open>files_with_anomalies\<close> and the console.
\<close>

datatype 'p console_line = ErrorReport 'p ustr | FileReport 'p nat

fun main_loop ::
  "unicode_db \<Rightarrow> 'p filesystem \<Rightarrow> 'p list
     \<Rightarrow> ('p \<times> anomaly list) list \<times> 'p console_line list
     \<Rightarrow> ('p \<times> anomaly list) list \<times> 'p console_line list" where
  "main_loop U fs [] (files_with_anomalies, console) = (files_with_anomalies, console)"
| "main_loop U fs (txt_file # rest) (files_with_anomalies, console) =
     (case analyze_file U fs txt_file of
        Inl error \<Rightarrow>
          main_loop U fs rest (files_with_anomalies, console @ [ErrorReport txt_file error])
      | Inr result \<Rightarrow>
          if anomalies result \<noteq> []
          then main_loop U fs rest
                 (files_with_anomalies @ [(txt_file, anomalies result)],
                  console @ [FileReport txt_file (total_lines result)])
          else main_loop U fs rest (files_with_anomalies, console))"

text \<open>
  \<open>main\<close> up to the writing of the report: no result when no file was found,
  otherwise the loop over the files in sorted order (\<open>txt_files\<close> is given sorted).
\<close>

definition main ::
  "unicode_db \<Rightarrow> 'p filesystem \<Rightarrow> 'p list
     \<Rightarrow> (('p \<times> anomaly list) list \<times> 'p console_line list) option" where
  "main U fs txt_files =
     (if txt_files = [] then None else Some (main_loop U fs txt_files ([], [])))"

section \<open>The summary (scripts/create\_summary.py)\<close>

text \<open>
  \<open>data\<close>, the parsed detailed report: per file name, in the order of the report,
  the line numbers found under each of the four kinds.
\<close>

type_synonym report_data = "(ustr \<times> (kind \<Rightarrow> int list)) list"

text \<open>
  \<open>list.sort(key=lambda x: x[1], reverse=True)\<close>: a stable sort by descending
  count.
\<close>

definition sort_by_count :: "(ustr \<times> nat) list \<Rightarrow> (ustr \<times> nat) list" where
  "sort_by_count files = sort_key (\<lambda>x. - int (snd x)) files"

definition files_with_tokens :: "report_data \<Rightarrow> (ustr \<times> nat) list" where
  "files_with_tokens data =
     sort_by_count
       (map (\<lambda>(filename, anomalies). (filename, length (anomalies token_like)))
         (filter (\<lambda>(filename, anomalies). anomalies token_like \<noteq> []) data))"

definition files_with_multiple_unusual :: "report_data \<Rightarrow> (ustr \<times> nat) list" where
  "files_with_multiple_unusual data =
     sort_by_count
       (map (\<lambda>(filename, anomalies). (filename, length (anomalies multiple_unusual_chars)))
         (filter (\<lambda>(filename, anomalies). anomalies multiple_unusual_chars \<noteq> []) data))"

definition files_with_unusual_symbols :: "report_data \<Rightarrow> (ustr \<times> nat) list" where
  "files_with_unusual_symbols data =
     sort_by_count
       (map (\<lambda>(filename, anomalies). (filename, length (anomalies unusual_symbols)))
         (filter (\<lambda>(filename, anomalies). length (anomalies unusual_symbols) > 100) data))"

definition files_with_latin :: "report_data \<Rightarrow> (ustr \<times> nat) list" where
  "files_with_latin data =
     sort_by_count
       (map (\<lambda>(filename, anomalies). (filename, length (anomalies latin_in_russian)))
         (filter (\<lambda>(filename, anomalies). length (anomalies latin_in_russian) > 50) data))"

text \<open>
  The lines of the summary, without their wording: a rule of 80 characters, a fixed
  caption (0 the title, 1 to 4 the section titles, 5 the title of the statistics, 6 to
  9 the closing notes), an empty line, the number of files found, the entry of a file
  with its count, the number of files left out of a section, the line saying that
  nothing was found, and a line of the statistics (its number and its value).
\<close>

datatype summary_line =
  Rule uchar
| Caption nat
| Blank
| Found nat
| Entry ustr nat
| AndMore nat
| NothingFound
| Stat nat nat

text \<open>Sections 1 and 2 list every file of their list.\<close>

definition section_all :: "(ustr \<times> nat) list \<Rightarrow> summary_line list" where
  "section_all files =
     (if files \<noteq> [] then
        [Found (length files), Blank] @ map (\<lambda>(filename, count). Entry filename count) files
      else [NothingFound])"

text \<open>Sections 3 and 4 list the first 20 files of their list and count the rest.\<close>

definition section_top20 :: "(ustr \<times> nat) list \<Rightarrow> summary_line list" where
  "section_top20 files =
     (if files \<noteq> [] then
        [Found (length files), Blank]
        @ map (\<lambda>(filename, count). Entry filename count) (take 20 files)
        @ (if length files > 20 then [AndMore (length files - 20)] else [])
      else [NothingFound])"

definition section_tokens :: "report_data \<Rightarrow> summary_line list" where
  "section_tokens data = section_all (files_with_tokens data)"

definition section_multiple_unusual :: "report_data \<Rightarrow> summary_line list" where
  "section_multiple_unusual data = section_all (files_with_multiple_unusual data)"

definition section_unusual_symbols :: "report_data \<Rightarrow> summary_line list" where
  "section_unusual_symbols data = section_top20 (files_with_unusual_symbols data)"

definition section_latin :: "report_data \<Rightarrow> summary_line list" where
  "section_latin data = section_top20 (files_with_latin data)"

text \<open>
  \<open>create_summary\<close>: nothing is written when the detailed report is missing
  (\<open>None\<close>) or lists no file; otherwise the summary text, line by line.
\<close>

definition create_summary :: "report_data option \<Rightarrow> summary_line list option" where
  "create_summary parsed =
     (case parsed of
        None \<Rightarrow> None
      | Some data \<Rightarrow>
          if data = [] then None
          else Some
            ([Rule 61, Caption 0, Rule 61, Blank]
             @ [Caption 1, Rule 45] @ section_tokens data @ [Blank]
             @ [Caption 2, Rule 45] @ section_multiple_unusual data @ [Blank]
             @ [Caption 3, Rule 45] @ section_unusual_symbols data @ [Blank]
             @ [Caption 4, Rule 45] @ section_latin data @ [Blank]
             @ [Rule 61, Caption 5, Rule 61,
                Stat 1 (length data),
                Stat 2 (length (files_with_tokens data)),
                Stat 3 (length (files_with_multiple_unusual data)),
                Stat 4 (length (files_with_unusual_symbols data)),
                Stat 5 (length (files_with_latin data)),
                Blank, Caption 6, Caption 7, Caption 8, Caption 9, Rule 61]))"

text \<open>The file entries of a section, in the order they are listed.\<close>

definition entries :: "summary_line list \<Rightarrow> (ustr \<times> nat) list" where
  "entries ls = concat (map (\<lambda>l. case l of Entry filename count \<Rightarrow> [(filename, count)] | _ \<Rightarrow> []) ls)"

section \<open>Notions used in the properties, and example inputs\<close>

text \<open>The ten ASCII digits are decimal digits of the table.\<close>

definition ascii_digits_decimal :: "unicode_db \<Rightarrow> bool" where
  "ascii_digits_decimal U = list_all (isdecimal U) [48..<58]"

text \<open>
  The table keeps the base64 alphabet apart from the chapter patterns: none of its
  characters matches the Cyrillic letters U+0413 and U+0427 when case is ignored, and
  neither \<open>=\<close> nor \<open>/\<close> is a decimal digit or matches \<open>[IVXLCDM]\<close> when case
  is ignored.
\<close>

definition base64_apart :: "unicode_db \<Rightarrow> bool" where
  "base64_apart U =
     (list_all (\<lambda>c. \<not> cset_matches U (InIgnore [Ch 1043, Ch 1063]) c)
        (u ''ABCDEFGHIJKLMNOPQRSTUVWXYZabcdefghijklmnopqrstuvwxyz0123456789+/='')
      \<and> list_all (\<lambda>x. \<not> isdecimal U x \<and> \<not> cset_matches U (InIgnore roman_items) x)
          [61, 47])"

text \<open>Below code 128 the alphabetic characters of the table are the 52 ASCII letters.\<close>

definition ascii_letters_alpha :: "unicode_db \<Rightarrow> bool" where
  "ascii_letters_alpha U =
     list_all (\<lambda>c. isalpha U c = ((65 \<le> c \<and> c \<le> 90) \<or> (97 \<le> c \<and> c \<le> 122))) [0..<128]"

text \<open>The key under which \<open>analyze_file\<close> remembers a record.\<close>

definition record_key :: "anomaly \<Rightarrow> int \<times> kind" where
  "record_key a = (a_line_num a, a_type a)"

text \<open>
  The invariant of the two loops of \<open>analyze_file\<close>: \<open>seen_lines\<close> holds exactly
  the keys of \<open>all_anomalies\<close>, and no key occurs twice there.
\<close>

definition dedup_inv :: "(int \<times> kind) set \<times> anomaly list \<Rightarrow> bool" where
  "dedup_inv st =
     (fst st = set (map record_key (snd st)) \<and> distinct (map record_key (snd st)))"

text \<open>What one pass of the loop of \<open>main\<close> adds to its two lists.\<close>

definition file_entry ::
  "unicode_db \<Rightarrow> 'p filesystem \<Rightarrow> 'p \<Rightarrow> ('p \<times> anomaly list) list" where
  "file_entry U fs txt_file =
     (case analyze_file U fs txt_file of
        Inl error \<Rightarrow> []
      | Inr result \<Rightarrow> if anomalies result \<noteq> [] then [(txt_file, anomalies result)] else [])"

definition file_console :: "unicode_db \<Rightarrow> 'p filesystem \<Rightarrow> 'p \<Rightarrow> 'p console_line list" where
  "file_console U fs txt_file =
     (case analyze_file U fs txt_file of
        Inl error \<Rightarrow> [ErrorReport txt_file error]
      | Inr result \<Rightarrow>
          if anomalies result \<noteq> [] then [FileReport txt_file (total_lines result)] else [])"

text \<open>A list of files with counts is in descending order of count.\<close>

definition descending :: "(ustr \<times> nat) list \<Rightarrow> bool" where
  "descending files = sorted_wrt (\<lambda>x y. snd x \<ge> snd y) files"

subsection \<open>Example lines\<close>

text \<open>
  \<open>GLAVA IV\<close> (U+0413 U+041B U+0410 U+0412 U+0410, a blank, \<open>IV\<close>) and
  \<open>VOJNA I MIR\<close> in capital Cyrillic letters, each with its line feed.
\<close>

definition glava_iv :: ustr where
  "glava_iv = [1043, 1051, 1040, 1042, 1040, 32] @ u ''IV'' @ [10]"

definition vojna_i_mir :: ustr where
  "vojna_i_mir = [1042, 1054, 1049, 1053, 1040, 32, 1048, 32, 1052, 1048, 1056, 10]"

text \<open>
  \<open>Privet XYZ mir\<close>, the line of the scenario: the Cyrillic words U+041F U+0440
  U+0438 U+0432 U+0435 U+0442 and U+043C U+0438 U+0440 around the Latin letters; the
  same line with four Latin letters; with three at signs; and with four Latin letters
  and an at sign.
\<close>

definition privet_xyz_mir :: ustr where
  "privet_xyz_mir =
     [1055, 1088, 1080, 1074, 1077, 1090, 32] @ u ''XYZ'' @ [32, 1084, 1080, 1088]"

definition privet_wxyz_mir :: ustr where
  "privet_wxyz_mir =
     [1055, 1088, 1080, 1074, 1077, 1090, 32] @ u ''WXYZ'' @ [32, 1084, 1080, 1088]"

definition privet_at3 :: ustr where
  "privet_at3 =
     [1055, 1088, 1080, 1074, 1077, 1090, 32] @ u ''@@@'' @ [32, 1084, 1080, 1088, 10]"

definition privet_wxyz_at :: ustr where
  "privet_wxyz_at =
     [1055, 1088, 1080, 1074, 1077, 1090, 32] @ u ''WXYZ @'' @ [32, 1084, 1080, 1088]"

text \<open>A line of 39 letters \<open>A\<close> and one \<open>=\<close>: 40 characters of the base64 alphabet.\<close>

definition token40 :: ustr where
  "token40 = u ''AAAAAAAAAAAAAAAAAAAAAAAAAAAAAAAAAAAAAAA=''"

text \<open>A line without any Cyrillic letter, but with a digit.\<close>

definition hello_world_1 :: ustr where
  "hello_world_1 = u ''Hello world 1 @''"

text \<open>\<open>sm. http tut\<close>: Cyrillic words (U+0441 U+043C, U+0442 U+0443 U+0442) around \<open>http\<close>.\<close>

definition sm_http_tut :: ustr where
  "sm_http_tut = [1089, 1084, 46, 32] @ u ''http'' @ [32, 1090, 1091, 1090]"

subsection \<open>Example files and reports\<close>

text \<open>A file of two lines: a chapter heading and a line with three at signs.\<close>

definition lines2 :: "ustr list" where
  "lines2 = [glava_iv, privet_at3]"

text \<open>
  Four files, named 10 to 13: the first cannot be opened, the second decodes under
  neither encoding, the third decodes under code page 1251 only, the fourth is UTF-8
  and holds one chapter heading.
\<close>

definition fs_example :: "nat filesystem" where
  "fs_example filepath enc =
     (if filepath = 10 then OtherException (u ''Permission denied'')
      else if filepath = 11 then UnicodeDecodeError (u ''invalid byte'')
      else if filepath = 12 then
        (case enc of utf_8 \<Rightarrow> UnicodeDecodeError (u ''invalid byte'') | cp1251 \<Rightarrow> Returned lines2)
      else Returned [glava_iv])"

text \<open>
  A parsed report entry with \<open>a\<close> lines under \<open>unusual_symbols\<close> and \<open>b\<close> lines
  under \<open>latin_in_russian\<close>.
\<close>

definition hits :: "nat \<Rightarrow> nat \<Rightarrow> kind \<Rightarrow> int list" where
  "hits a b k =
     (if k = unusual_symbols then replicate a 1
      else if k = latin_in_russian then replicate b 1 else [])"

text \<open>Three files \<open>B\<close>, \<open>C\<close>, \<open>A\<close>, and 21 files \<open>A\<close> to \<open>U\<close> with 101 hits each.\<close>

definition data3 :: report_data where
  "data3 = [(u ''B'', hits 101 60), (u ''C'', hits 100 51), (u ''A'', hits 150 0)]"

definition data21 :: report_data where
  "data21 = map (\<lambda>i. ([65 + i], hits 101 0)) [0..<21]"

section \<open>Properties\<close>

subsection \<open>Evaluation rules and basic facts\<close>

lemmas eval_text = strip_def isspace_def u_def ord_def

lemmas eval_regex = re_match_def re_search_def re_findall_def literal_ignore_def
  is_word_def at_boundary_def

lemmas eval_patterns = CHAPTER_PATTERNS_def roman_items_def literal_word_def
  roman_pattern_def bracket_pattern_def word_pattern_def unusual_pattern_def

lemmas eval_sets = common_abbrevs_def base64_chars_def normal_symbols_def
  ALLOWED_CHARS_def RUSSIAN_CHARS_def PUNCTUATION_def WHITESPACE_def

lemmas eval_line = find_anomalies_in_line_def is_likely_chapter_title_def
  is_base64_like_def is_normal_latin_usage_def str_isupper_def str_isalpha_def upper_def
  suspicious_chars_def has_russian_def latin_chars_def other_chars_def
  enumerate_eq_zip Let_def ucd_basic_def

text \<open>A line strips to nothing exactly when it is white space only.\<close>

lemma strip_empty_iff: "strip s = [] \<longleftrightarrow> list_all isspace s"
proof (cases "dropWhile isspace s = []")
  case True
  have "strip s = []" unfolding strip_def True by simp
  moreover have "list_all isspace s" using True by (simp add: list_all_iff)
  ultimately show ?thesis by simp
next
  case False
  then have "\<not> isspace (hd (dropWhile isspace s))" by (rule hd_dropWhile)
  moreover from False have "hd (dropWhile isspace s) \<in> set (dropWhile isspace s)" by simp
  ultimately have "dropWhile isspace (rev (dropWhile isspace s)) \<noteq> []"
    by (auto simp: dropWhile_eq_Nil_conv)
  with False show ?thesis by (auto simp: strip_def list_all_iff dropWhile_eq_Nil_conv)
qed

text \<open>
  A repetition without upper bound, followed by \<open>$\<close>, takes a text made of
  characters of its set entirely.
\<close>

lemma rep_takes_all:
  "list_all (cset_matches U cs) s \<Longrightarrow> lo \<le> length s \<Longrightarrow>
   re_at U [Rep cs lo None, Eol] prev s = Some []"
proof (induction s arbitrary: lo prev)
  case Nil
  then show ?case by simp
next
  case (Cons c s)
  from Cons.prems have "lo - 1 \<le> length s" by simp
  with Cons have "re_at U [Rep cs (lo - 1) None, Eol] (Some c) s = Some []" by simp
  with Cons.prems show ?case by simp
qed

lemma ascii_digit_decimal:
  "ascii_digits_decimal U \<Longrightarrow> 48 \<le> c \<Longrightarrow> c \<le> 57 \<Longrightarrow> isdecimal U c"
proof -
  assume db: "ascii_digits_decimal U" and "48 \<le> c" "c \<le> 57"
  then have "c \<in> {48..<58}" by simp
  then have "c \<in> set [48..<58]" by (simp only: set_upt)
  with db show ?thesis unfolding ascii_digits_decimal_def list_all_iff by blast
qed

lemma digits_are_chapter:
  assumes "ascii_digits_decimal U" "list_all (\<lambda>c. 48 \<le> c \<and> c \<le> 57) s" "s \<noteq> []"
  shows "re_match U [Bol, Rep (In [Digit]) 1 None, Eol] s"
proof -
  have "list_all (cset_matches U (In [Digit])) s"
    using assms(2) ascii_digit_decimal [OF assms(1)] by (auto simp: list_all_iff)
  moreover have "1 \<le> length s" using assms(3) by (cases s) auto
  ultimately show ?thesis by (simp add: re_match_def rep_takes_all)
qed

text \<open>Every record of a line carries the line number it was asked for.\<close>

lemma find_anomalies_line_num:
  "a \<in> set (find_anomalies_in_line U line n) \<Longrightarrow> a_line_num a = n"
  by (auto simp: find_anomalies_in_line_def Let_def split: if_splits)

text \<open>The classifier itself gives at most one record of a kind.\<close>

lemma find_anomalies_distinct_kinds:
  "distinct (map a_type (find_anomalies_in_line U line n))"
  by (auto simp: find_anomalies_in_line_def Let_def)

subsection \<open>Chapter headings and blank lines\<close>

text \<open>
  Claim C3. A line whose trimmed content matches one of the chapter patterns, or that
  is empty or white space only, or whose trimmed content is shorter than 30
  characters, upper case and alphabetic once its blanks are removed, yields no anomaly
  record, whatever the line number.
\<close>

theorem chapter_or_blank_no_anomaly:
  assumes "list_ex (\<lambda>pattern. re_match U pattern (strip line)) CHAPTER_PATTERNS
           \<or> list_all isspace line
           \<or> (length (strip line) < 30 \<and> str_isupper U (strip line)
               \<and> str_isalpha U (filter (\<lambda>c. c \<noteq> 32) (strip line)))"
  shows "find_anomalies_in_line U line line_num = []"
proof (cases "strip line = []")
  case True
  then show ?thesis by (simp add: find_anomalies_in_line_def)
next
  case False
  then have "\<not> list_all isspace line" by (simp add: strip_empty_iff)
  with assms False have "is_likely_chapter_title U line"
    by (auto simp: is_likely_chapter_title_def)
  then show ?thesis by (simp add: find_anomalies_in_line_def)
qed

text \<open>
  The three cases at work: \<open>GLAVA IV\<close> matches a chapter pattern, a line of blanks
  and a tab is white space only, and \<open>VOJNA I MIR\<close> matches no pattern but is a
  short upper-case title.
\<close>

theorem chapter_or_blank_no_anomaly_witness:
  "list_ex (\<lambda>pattern. re_match ucd_basic pattern (strip glava_iv)) CHAPTER_PATTERNS
   \<and> find_anomalies_in_line ucd_basic glava_iv 3 = []
   \<and> list_all isspace (u ''   '' @ [9, 10])
   \<and> find_anomalies_in_line ucd_basic (u ''   '' @ [9, 10]) 4 = []
   \<and> length (strip vojna_i_mir) < 30 \<and> str_isupper ucd_basic (strip vojna_i_mir)
   \<and> str_isalpha ucd_basic (filter (\<lambda>c. c \<noteq> 32) (strip vojna_i_mir))
   \<and> \<not> list_ex (\<lambda>pattern. re_match ucd_basic pattern (strip vojna_i_mir)) CHAPTER_PATTERNS
   \<and> find_anomalies_in_line ucd_basic vojna_i_mir 5 = []"
proof -
  have a: "list_ex (\<lambda>pattern. re_match ucd_basic pattern (strip glava_iv)) CHAPTER_PATTERNS"
    by (simp add: glava_iv_def eval_text eval_regex eval_patterns ucd_basic_def)
  have b: "list_all isspace (u ''   '' @ [9, 10])"
    by (simp add: eval_text)
  have c: "length (strip vojna_i_mir) < 30 \<and> str_isupper ucd_basic (strip vojna_i_mir)
      \<and> str_isalpha ucd_basic (filter (\<lambda>c. c \<noteq> 32) (strip vojna_i_mir))"
    by (simp add: vojna_i_mir_def eval_text str_isupper_def str_isalpha_def ucd_basic_def)
  have d: "\<not> list_ex (\<lambda>pattern. re_match ucd_basic pattern (strip vojna_i_mir)) CHAPTER_PATTERNS"
    by (simp add: vojna_i_mir_def eval_text eval_regex eval_patterns ucd_basic_def)
  from a have "find_anomalies_in_line ucd_basic glava_iv 3 = []"
    by (intro chapter_or_blank_no_anomaly) simp
  moreover from b have "find_anomalies_in_line ucd_basic (u ''   '' @ [9, 10]) 4 = []"
    by (intro chapter_or_blank_no_anomaly) simp
  moreover from c have "find_anomalies_in_line ucd_basic vojna_i_mir 5 = []"
    by (intro chapter_or_blank_no_anomaly) simp
  ultimately show ?thesis using a b c d by simp
qed

text \<open>
  Claim C8. A line whose trimmed content consists of ASCII decimal digits only matches
  the pattern \<open>^\d+$\<close>, so it is taken for a chapter heading and yields no anomaly
  record, whatever its length and line number. (The table must know the ASCII digits
  as decimal digits, as the interpreter's does.)
\<close>

theorem plain_number_no_anomaly:
  assumes "ascii_digits_decimal U" "list_all (\<lambda>c. 48 \<le> c \<and> c \<le> 57) (strip line)"
  shows "(strip line \<noteq> [] \<longrightarrow> is_likely_chapter_title U line)
         \<and> find_anomalies_in_line U line line_num = []"
proof (cases "strip line = []")
  case True
  then show ?thesis by (simp add: find_anomalies_in_line_def)
next
  case False
  with assms have "re_match U [Bol, Rep (In [Digit]) 1 None, Eol] (strip line)"
    by (rule_tac digits_are_chapter)
  then have "list_ex (\<lambda>pattern. re_match U pattern (strip line)) CHAPTER_PATTERNS"
    by (simp add: CHAPTER_PATTERNS_def)
  with False have "is_likely_chapter_title U line" by (simp add: is_likely_chapter_title_def)
  then show ?thesis by (simp add: find_anomalies_in_line_def)
qed

theorem plain_number_no_anomaly_witness:
  "ascii_digits_decimal ucd_basic
   \<and> list_all (\<lambda>c. 48 \<le> c \<and> c \<le> 57) (strip (u ''  1867 '' @ [10]))
   \<and> is_likely_chapter_title ucd_basic (u ''  1867 '' @ [10])
   \<and> find_anomalies_in_line ucd_basic (u ''  1867 '' @ [10]) 12 = []"
proof -
  have a: "ascii_digits_decimal ucd_basic"
    by (simp add: ascii_digits_decimal_def ucd_basic_def upt_rec)
  have b: "list_all (\<lambda>c. 48 \<le> c \<and> c \<le> 57) (strip (u ''  1867 '' @ [10]))"
    by (simp add: eval_text)
  have c: "strip (u ''  1867 '' @ [10]) \<noteq> []"
    by (simp add: eval_text)
  from plain_number_no_anomaly [OF a b, of 12] a b c show ?thesis by blast
qed

subsection \<open>One record per line and kind\<close>

lemma add_anomalies_inv:
  assumes "dedup_inv (seen, acc)" "list_all (\<lambda>a. a_line_num a = n) as"
  shows "dedup_inv (add_anomalies n as (seen, acc))
         \<and> fst (add_anomalies n as (seen, acc)) = seen \<union> set (map record_key as)"
  using assms
proof (induction as arbitrary: seen acc)
  case Nil
  then show ?case by simp
next
  case (Cons a as)
  from Cons.prems(2) have key: "record_key a = (n, a_type a)"
    and rest: "list_all (\<lambda>a. a_line_num a = n) as"
    by (simp_all add: record_key_def)
  show ?case
  proof (cases "(n, a_type a) \<in> seen")
    case True
    with Cons.IH [OF Cons.prems(1) rest] key show ?thesis by auto
  next
    case False
    with Cons.prems(1) key have "dedup_inv (insert (n, a_type a) seen, acc @ [a])"
      by (auto simp: dedup_inv_def)
    from Cons.IH [OF this rest] False key show ?thesis by auto
  qed
qed

lemma UN_lessThan_Suc_shift: "(\<Union>i<Suc m. F i) = F 0 \<union> (\<Union>j<m. F (Suc j))"
  by (simp add: lessThan_Suc_eq_insert_0 image_image del: lessThan_Suc)

text \<open>
  After the outer loop the keys seen are those it started with and the keys of the
  records that the classifier gives for each line, the line at index \<open>i\<close> being
  numbered \<open>n + i\<close>.
\<close>

lemma scan_lines_inv:
  assumes "dedup_inv st"
  shows "dedup_inv (scan_lines U n lines st)
         \<and> fst (scan_lines U n lines st) =
             fst st \<union> (\<Union>i<length lines.
                set (map record_key (find_anomalies_in_line U (lines ! i) (n + int i))))"
  using assms
proof (induction lines arbitrary: n st)
  case Nil
  then show ?case by simp
next
  case (Cons line rest)
  obtain seen acc where st: "st = (seen, acc)" by (cases st)
  let ?K = "\<lambda>ls m i. set (map record_key (find_anomalies_in_line U (ls ! i) (m + int i)))"
  let ?found = "find_anomalies_in_line U line n"
  let ?st' = "add_anomalies n ?found st"
  have "list_all (\<lambda>a. a_line_num a = n) ?found"
    by (simp add: list_all_iff find_anomalies_line_num)
  with Cons.prems st
  have step: "dedup_inv ?st'" "fst ?st' = fst st \<union> set (map record_key ?found)"
    using add_anomalies_inv [of seen acc n ?found] by simp_all
  from Cons.IH [OF step(1), of "n + 1"]
  have inv: "dedup_inv (scan_lines U (n + 1) rest ?st')"
    and keys: "fst (scan_lines U (n + 1) rest ?st') =
                 fst ?st' \<union> (\<Union>i<length rest. ?K rest (n + 1) i)"
    by simp_all
  have shift: "?K (line # rest) n (Suc j) = ?K rest (n + 1) j" for j
  proof -
    have "n + int (Suc j) = n + 1 + int j" by simp
    then show ?thesis by (simp only: nth_Cons_Suc)
  qed
  have zero: "?K (line # rest) n 0 = set (map record_key ?found)" by simp
  have "(\<Union>i<Suc (length rest). ?K (line # rest) n i)
      = ?K (line # rest) n 0 \<union> (\<Union>j<length rest. ?K (line # rest) n (Suc j))"
    by (rule UN_lessThan_Suc_shift)
  then have "(\<Union>i<length (line # rest). ?K (line # rest) n i)
      = set (map record_key ?found) \<union> (\<Union>j<length rest. ?K rest (n + 1) j)"
    by (simp only: shift zero length_Cons)
  with inv keys step(2) show ?case by (simp only: scan_lines.simps Un_assoc)
qed

lemma count_one:
  assumes "distinct (map f xs)" "k \<in> set (map f xs)"
  shows "length (filter (\<lambda>a. f a = k) xs) = 1"
  using assms
proof (induction xs)
  case Nil
  then show ?case by simp
next
  case (Cons x xs)
  show ?case
  proof (cases "f x = k")
    case True
    with Cons.prems have "k \<notin> set (map f xs)" by auto
    then have "filter (\<lambda>a. f a = k) xs = []" by (auto simp: filter_empty_conv)
    with True show ?thesis by simp
  next
    case False
    with Cons show ?thesis by auto
  qed
qed

text \<open>What \<open>analyze_file\<close> returns on success is the scan of the lines it read.\<close>

lemma analyze_file_Inr:
  assumes "analyze_file U fs filepath = Inr result"
  shows "\<exists>lines. result = analyze_lines U lines"
proof (cases "fs filepath utf_8")
  case (Returned lines)
  with assms show ?thesis by (auto simp: analyze_file_def)
next
  case (UnicodeDecodeError e)
  with assms show ?thesis by (cases "fs filepath cp1251") (auto simp: analyze_file_def)
next
  case (OtherException e)
  with assms show ?thesis by (simp add: analyze_file_def)
qed

text \<open>
  Claim C4. The anomaly list of a scanned file holds at most one record per pair of
  line number and kind. Moreover, for the line at index \<open>i\<close> (numbered \<open>i + 1\<close>) and
  every kind that the classifier reports for that line, the list holds exactly one
  record of that line and kind; so a line that meets both the \<open>unusual_symbols\<close> and
  the \<open>multiple_unusual_chars\<close> condition has exactly one record of each. The last
  part states the first for whatever \<open>analyze_file\<close> returns.
\<close>

theorem one_record_per_line_and_kind:
  "distinct (map record_key (anomalies (analyze_lines U lines)))
   \<and> (\<forall>i k. i < length lines
         \<and> k \<in> set (map a_type (find_anomalies_in_line U (lines ! i) (int i + 1)))
       \<longrightarrow> length (filter (\<lambda>a. record_key a = (int i + 1, k))
                     (anomalies (analyze_lines U lines))) = 1)
   \<and> (\<forall>result. analyze_file U fs filepath = Inr result
       \<longrightarrow> distinct (map record_key (anomalies result)))"
proof -
  have all_distinct: "distinct (map record_key (anomalies (analyze_lines U ls)))" for ls
  proof -
    have "dedup_inv ({}, [])" by (simp add: dedup_inv_def)
    from scan_lines_inv [OF this, of U 1 ls] show ?thesis
      by (simp add: dedup_inv_def analyze_lines_def)
  qed
  let ?st = "scan_lines U 1 lines ({}, [])"
  have "dedup_inv ({}, [])" by (simp add: dedup_inv_def)
  from scan_lines_inv [OF this, of U 1 lines]
  have inv: "dedup_inv ?st"
    and keys: "fst ?st = (\<Union>i<length lines.
        set (map record_key (find_anomalies_in_line U (lines ! i) (1 + int i))))"
    by simp_all
  from inv have d: "distinct (map record_key (snd ?st))"
    and s: "set (map record_key (snd ?st)) = fst ?st" by (simp_all add: dedup_inv_def)
  have one: "length (filter (\<lambda>a. record_key a = (int i + 1, k)) (snd ?st)) = 1"
    if i: "i < length lines"
      and k: "k \<in> set (map a_type (find_anomalies_in_line U (lines ! i) (int i + 1)))" for i k
  proof -
    from k obtain a where a: "a \<in> set (find_anomalies_in_line U (lines ! i) (int i + 1))"
      "a_type a = k"
      by auto
    then have "record_key a = (int i + 1, k)"
      by (simp add: record_key_def find_anomalies_line_num)
    with a(1) have "(int i + 1, k)
        \<in> set (map record_key (find_anomalies_in_line U (lines ! i) (1 + int i)))"
      by (force simp: add.commute)
    with i keys have "(int i + 1, k) \<in> fst ?st" by blast
    with s have "(int i + 1, k) \<in> set (map record_key (snd ?st))" by simp
    with d show ?thesis by (rule count_one)
  qed
  have of_file: "distinct (map record_key (anomalies result))"
    if "analyze_file U fs filepath = Inr result" for result
    using analyze_file_Inr [OF that] all_distinct by auto
  from all_distinct one of_file show ?thesis by (simp add: analyze_lines_def)
qed

text \<open>
  The second line of the example file has three at signs between Cyrillic words: the
  classifier reports it under both kinds, and the file's list holds one record of each.
\<close>

lemma privet_at3_records:
  "find_anomalies_in_line ucd_basic privet_at3 line_num =
     [\<lparr>a_type = unusual_symbols, a_line_num = line_num,
       a_chars = Some (OtherChars [(7, 64, u ''0x40''), (8, 64, u ''0x40''), (9, 64, u ''0x40'')]),
       a_line = strip privet_at3\<rparr>,
      \<lparr>a_type = multiple_unusual_chars, a_line_num = line_num, a_chars = None,
       a_line = strip privet_at3\<rparr>]"
  by (simp add: privet_at3_def eval_text eval_regex eval_patterns eval_sets eval_line
      hex_def hex_digits.simps hexdigit_def)

lemma glava_iv_records: "find_anomalies_in_line ucd_basic glava_iv line_num = []"
  by (simp add: glava_iv_def eval_text eval_regex eval_patterns eval_sets eval_line)

theorem one_record_per_line_and_kind_witness:
  "(1::nat) < length lines2
   \<and> unusual_symbols
       \<in> set (map a_type (find_anomalies_in_line ucd_basic (lines2 ! 1) (int 1 + 1)))
   \<and> multiple_unusual_chars
       \<in> set (map a_type (find_anomalies_in_line ucd_basic (lines2 ! 1) (int 1 + 1)))
   \<and> length (filter (\<lambda>a. record_key a = (int 1 + 1, unusual_symbols))
         (anomalies (analyze_lines ucd_basic lines2))) = 1
   \<and> length (filter (\<lambda>a. record_key a = (int 1 + 1, multiple_unusual_chars))
         (anomalies (analyze_lines ucd_basic lines2))) = 1
   \<and> distinct (map record_key (anomalies (analyze_lines ucd_basic lines2)))"
proof -
  have len: "(1::nat) < length lines2" by (simp add: lines2_def)
  have k1: "unusual_symbols
      \<in> set (map a_type (find_anomalies_in_line ucd_basic (lines2 ! 1) (int 1 + 1)))"
    and k2: "multiple_unusual_chars
      \<in> set (map a_type (find_anomalies_in_line ucd_basic (lines2 ! 1) (int 1 + 1)))"
    by (simp_all add: lines2_def privet_at3_records)
  from one_record_per_line_and_kind [of ucd_basic lines2 fs_example 0] len k1 k2
  show ?thesis by blast
qed

text \<open>
  The classifier never gives two records of one kind and the lines are numbered apart,
  so the test against \<open>seen_lines\<close> never drops a record: the list of a file is the
  classifier's records of its lines, in order.
\<close>

lemma add_anomalies_fresh:
  assumes "list_all (\<lambda>a. (n, a_type a) \<notin> seen) as" "distinct (map a_type as)"
  shows "add_anomalies n as (seen, acc) =
           (seen \<union> set (map (\<lambda>a. (n, a_type a)) as), acc @ as)"
  using assms
proof (induction as arbitrary: seen acc)
  case Nil
  then show ?case by simp
next
  case (Cons a as)
  from Cons.prems have fresh: "(n, a_type a) \<notin> seen"
    and dist: "distinct (map a_type as)"
    and new: "a_type a \<notin> set (map a_type as)"
    and unseen: "list_all (\<lambda>b. (n, a_type b) \<notin> seen) as"
    by simp_all
  have other: "a_type b \<noteq> a_type a \<and> (n, a_type b) \<notin> seen" if "b \<in> set as" for b
  proof
    from that have "a_type b \<in> set (map a_type as)" by simp
    with new show "a_type b \<noteq> a_type a" by metis
    from that unseen show "(n, a_type b) \<notin> seen" by (simp add: list_all_iff)
  qed
  from other have rest: "list_all (\<lambda>b. (n, a_type b) \<notin> insert (n, a_type a) seen) as"
    by (simp add: list_all_iff)
  from Cons.IH [OF rest dist, of "acc @ [a]"] fresh show ?case by simp
qed

lemma scan_lines_keeps_everything:
  assumes "\<forall>(m, k) \<in> seen. m < n"
  shows "snd (scan_lines U n lines (seen, acc)) =
           acc @ concat (map (\<lambda>(i, line). find_anomalies_in_line U line (n + int i))
                          (enumerate 0 lines))"
  using assms
proof (induction lines arbitrary: n seen acc)
  case Nil
  then show ?case by simp
next
  case (Cons line rest)
  let ?found = "find_anomalies_in_line U line n"
  let ?seen' = "seen \<union> set (map (\<lambda>a. (n, a_type a)) ?found)"
  from Cons.prems have "list_all (\<lambda>a. (n, a_type a) \<notin> seen) ?found"
    by (auto simp: list_all_iff)
  then have step: "add_anomalies n ?found (seen, acc) = (?seen', acc @ ?found)"
    by (rule add_anomalies_fresh) (rule find_anomalies_distinct_kinds)
  from Cons.prems have "\<forall>(m, k) \<in> ?seen'. m < n + 1" by auto
  from Cons.IH [OF this, of "acc @ ?found"]
  have "snd (scan_lines U (n + 1) rest (?seen', acc @ ?found)) =
          (acc @ ?found) @ concat (map (\<lambda>(i, line). find_anomalies_in_line U line (n + 1 + int i))
                          (enumerate 0 rest))" .
  moreover have "map (\<lambda>(i, line). find_anomalies_in_line U line (n + int i)) (enumerate (Suc 0) rest)
      = map (\<lambda>(i, line). find_anomalies_in_line U line (n + 1 + int i)) (enumerate 0 rest)"
    by (simp add: enumerate_Suc_eq split_beta ac_simps)
  ultimately show ?case by (simp add: step)
qed

lemma analyze_lines_keeps_everything:
  "anomalies (analyze_lines U lines) =
     concat (map (\<lambda>(i, line). find_anomalies_in_line U line (1 + int i)) (enumerate 0 lines))"
  using scan_lines_keeps_everything [of "{}" 1 U lines "[]"] by (simp add: analyze_lines_def)

subsection \<open>The detail lists\<close>

lemma suspicious_chars_sound:
  "(i, c, code) \<in> set (suspicious_chars line) \<Longrightarrow>
   i < length line \<and> line ! i = c \<and> c \<notin> ALLOWED_CHARS \<and> code = c"
  by (auto simp: suspicious_chars_def in_set_enumerate_eq ord_def)

lemma latin_chars_sound:
  assumes "(i, c) \<in> set (latin_chars U line)"
  shows "i < length line \<and> line ! i = c \<and> c \<notin> ALLOWED_CHARS \<and> isalpha U c \<and> c < 128"
proof -
  from assms obtain code where "(i, c, code) \<in> set (suspicious_chars line)"
    and "isalpha U c \<and> ord c < 128"
    by (auto simp: latin_chars_def)
  then show ?thesis using suspicious_chars_sound [of i c code line] by (simp add: ord_def)
qed

lemma other_chars_sound:
  assumes "(i, c, h) \<in> set (other_chars U line)"
  shows "i < length line \<and> line ! i = c \<and> c \<notin> ALLOWED_CHARS
         \<and> \<not> (isalpha U c \<and> c < 128) \<and> c \<notin> normal_symbols \<and> h = hex c"
proof -
  from assms obtain code where "(i, c, code) \<in> set (suspicious_chars line)"
    and "\<not> (isalpha U c \<and> ord c < 128)" and "c \<notin> normal_symbols" and "h = hex (ord c)"
    by (auto simp: other_chars_def)
  then show ?thesis using suspicious_chars_sound [of i c code line] by (simp add: ord_def)
qed

text \<open>
  Claim C10. In a \<open>latin_in_russian\<close> or \<open>unusual_symbols\<close> record of a line, the
  detail list has at most 10 entries; each entry's character stands in the line at
  the entry's offset and is not in \<open>ALLOWED_CHARS\<close>; in a \<open>latin_in_russian\<close>
  record it is a letter with a code below 128, in an \<open>unusual_symbols\<close> record it is
  not (and the entry's third part is the hexadecimal code of the character).
\<close>

theorem chars_detail_sound:
  assumes "a \<in> set (find_anomalies_in_line U line line_num)"
  shows "(a_type a = latin_in_russian \<longrightarrow>
            (\<exists>cs. a_chars a = Some (LatinChars cs) \<and> length cs \<le> 10
               \<and> list_all (\<lambda>(i, c). i < length line \<and> line ! i = c \<and> c \<notin> ALLOWED_CHARS
                                   \<and> isalpha U c \<and> c < 128) cs))
       \<and> (a_type a = unusual_symbols \<longrightarrow>
            (\<exists>cs. a_chars a = Some (OtherChars cs) \<and> length cs \<le> 10
               \<and> list_all (\<lambda>(i, c, h). i < length line \<and> line ! i = c \<and> c \<notin> ALLOWED_CHARS
                                   \<and> \<not> (isalpha U c \<and> c < 128) \<and> h = hex c) cs))"
proof -
  have latin: "list_all (\<lambda>(i, c). i < length line \<and> line ! i = c \<and> c \<notin> ALLOWED_CHARS
                 \<and> isalpha U c \<and> c < 128) (take 10 (latin_chars U line))"
    unfolding list_all_iff using latin_chars_sound [of _ _ U line]
    by (auto dest: in_set_takeD)
  have other: "list_all (\<lambda>(i, c, h). i < length line \<and> line ! i = c \<and> c \<notin> ALLOWED_CHARS
                 \<and> \<not> (isalpha U c \<and> c < 128) \<and> h = hex c) (take 10 (other_chars U line))"
    unfolding list_all_iff using other_chars_sound [of _ _ _ U line]
    by (auto dest: in_set_takeD)
  from assms consider
      "a_type a = token_like" | "a_type a = multiple_unusual_chars"
    | "a_type a = latin_in_russian"
      "a_chars a = Some (LatinChars (take 10 (latin_chars U line)))"
    | "a_type a = unusual_symbols"
      "a_chars a = Some (OtherChars (take 10 (other_chars U line)))"
    by (auto simp: find_anomalies_in_line_def Let_def split: if_splits)
  then show ?thesis
  proof cases
    case 3
    with latin show ?thesis by simp
  next
    case 4
    with other show ?thesis by simp
  qed simp_all
qed

text \<open>
  A line with four Latin letters and an at sign between Cyrillic words gives one
  record of each of the two kinds; the theorem applies to both.
\<close>

lemma privet_wxyz_at_records:
  "find_anomalies_in_line ucd_basic privet_wxyz_at line_num =
     [\<lparr>a_type = latin_in_russian, a_line_num = line_num,
       a_chars = Some (LatinChars [(7, 87), (8, 88), (9, 89), (10, 90)]),
       a_line = privet_wxyz_at\<rparr>,
      \<lparr>a_type = unusual_symbols, a_line_num = line_num,
       a_chars = Some (OtherChars [(12, 64, u ''0x40'')]),
       a_line = privet_wxyz_at\<rparr>]"
  by (simp add: privet_wxyz_at_def eval_text eval_regex eval_patterns eval_sets eval_line
      hex_def hex_digits.simps hexdigit_def)

theorem chars_detail_sound_witness:
  "(\<exists>a \<in> set (find_anomalies_in_line ucd_basic privet_wxyz_at 9).
      a_type a = latin_in_russian
      \<and> (\<exists>cs. a_chars a = Some (LatinChars cs) \<and> length cs \<le> 10
            \<and> list_all (\<lambda>(i, c). i < length privet_wxyz_at \<and> privet_wxyz_at ! i = c
                  \<and> c \<notin> ALLOWED_CHARS \<and> isalpha ucd_basic c \<and> c < 128) cs))
   \<and> (\<exists>a \<in> set (find_anomalies_in_line ucd_basic privet_wxyz_at 9).
      a_type a = unusual_symbols
      \<and> (\<exists>cs. a_chars a = Some (OtherChars cs) \<and> length cs \<le> 10
            \<and> list_all (\<lambda>(i, c, h). i < length privet_wxyz_at \<and> privet_wxyz_at ! i = c
                  \<and> c \<notin> ALLOWED_CHARS \<and> \<not> (isalpha ucd_basic c \<and> c < 128)
                  \<and> h = hex c) cs))"
proof -
  let ?found = "find_anomalies_in_line ucd_basic privet_wxyz_at 9"
  have a0: "?found ! 0 \<in> set ?found" and t0: "a_type (?found ! 0) = latin_in_russian"
    and a1: "?found ! 1 \<in> set ?found" and t1: "a_type (?found ! 1) = unusual_symbols"
    by (simp_all add: privet_wxyz_at_records)
  from chars_detail_sound [OF a0] t0 a0 chars_detail_sound [OF a1] t1 a1
  show ?thesis by blast
qed

text \<open>With a table that is right below code 128, such a letter is one of the 52 ASCII letters.\<close>

lemma ascii_letter_of_table:
  assumes "ascii_letters_alpha U" "isalpha U c" "c < 128"
  shows "(65 \<le> c \<and> c \<le> 90) \<or> (97 \<le> c \<and> c \<le> 122)"
proof -
  from assms(3) have "c \<in> {0..<128}" by simp
  then have "c \<in> set [0..<128]" by (simp only: set_upt)
  with assms(1) have "isalpha U c = ((65 \<le> c \<and> c \<le> 90) \<or> (97 \<le> c \<and> c \<le> 122))"
    unfolding ascii_letters_alpha_def list_all_iff by blast
  with assms(2) show ?thesis by simp
qed

lemma ascii_letters_alpha_basic: "ascii_letters_alpha ucd_basic"
  unfolding ascii_letters_alpha_def list_all_iff by (auto simp: ucd_basic_def)

subsection \<open>Read errors\<close>

text \<open>The loop of \<open>main\<close> handles every file of its list, whatever happened before.\<close>

lemma main_loop_all_files:
  "main_loop U fs txt_files (found, console) =
     (found @ concat (map (file_entry U fs) txt_files),
      console @ concat (map (file_console U fs) txt_files))"
proof (induction txt_files arbitrary: found console)
  case Nil
  then show ?case by simp
next
  case (Cons txt_file rest)
  show ?case
  proof (cases "analyze_file U fs txt_file")
    case (Inl error)
    with Cons.IH show ?thesis by (simp add: file_entry_def file_console_def)
  next
    case (Inr result)
    with Cons.IH show ?thesis by (simp add: file_entry_def file_console_def)
  qed
qed

text \<open>
  Claim C6. \<open>analyze_file\<close> reads the file as UTF-8 first: if that succeeds, the
  result is the scan of those lines. If it fails to decode, the file is read under
  code page 1251, and the result is the scan of those lines, or, when that attempt
  fails too, an error with a message. Any other failure of the first attempt is an
  error with a message at once; the second encoding is consulted only after a decoding
  failure of the first (a file system that differs only there gives the same result).
  The run handles every file of its list: each contributes its own entry, an error
  line for a file that could not be read, and the files after it are still processed.
\<close>

theorem read_errors_not_fatal:
  "(\<forall>lines. fs filepath utf_8 = Returned lines \<longrightarrow>
       analyze_file U fs filepath = Inr (analyze_lines U lines))
   \<and> (\<forall>e lines. fs filepath utf_8 = UnicodeDecodeError e
         \<and> fs filepath cp1251 = Returned lines \<longrightarrow>
       analyze_file U fs filepath = Inr (analyze_lines U lines))
   \<and> (\<forall>e. fs filepath utf_8 = UnicodeDecodeError e
         \<and> (\<forall>lines. fs filepath cp1251 \<noteq> Returned lines) \<longrightarrow>
       (\<exists>e'. analyze_file U fs filepath = Inl (could_not_read @ e')))
   \<and> (\<forall>e. fs filepath utf_8 = OtherException e \<longrightarrow>
       analyze_file U fs filepath = Inl (error_reading @ e))
   \<and> ((\<forall>e. fs filepath utf_8 \<noteq> UnicodeDecodeError e)
         \<and> fs' filepath utf_8 = fs filepath utf_8 \<longrightarrow>
       analyze_file U fs' filepath = analyze_file U fs filepath)
   \<and> (txt_files \<noteq> [] \<longrightarrow>
       main U fs txt_files =
         Some (concat (map (file_entry U fs) txt_files),
               concat (map (file_console U fs) txt_files)))"
proof (intro conjI allI impI)
  fix e
  assume "fs filepath utf_8 = UnicodeDecodeError e
    \<and> (\<forall>lines. fs filepath cp1251 \<noteq> Returned lines)"
  then show "\<exists>e'. analyze_file U fs filepath = Inl (could_not_read @ e')"
    by (cases "fs filepath cp1251") (auto simp: analyze_file_def)
next
  assume "(\<forall>e. fs filepath utf_8 \<noteq> UnicodeDecodeError e)
    \<and> fs' filepath utf_8 = fs filepath utf_8"
  then show "analyze_file U fs' filepath = analyze_file U fs filepath"
    by (cases "fs filepath utf_8") (auto simp: analyze_file_def)
next
  assume "txt_files \<noteq> []"
  then show "main U fs txt_files =
         Some (concat (map (file_entry U fs) txt_files),
               concat (map (file_console U fs) txt_files))"
    by (simp add: main_def main_loop_all_files)
qed (auto simp: analyze_file_def)

text \<open>
  The four example files: two errors are reported, the third file is read under code
  page 1251 and listed with its two anomalies, the fourth has none; the run reaches
  all four.
\<close>

lemma analyze_lines2:
  "analyze_lines ucd_basic lines2 =
     \<lparr>total_lines = 2, anomalies = find_anomalies_in_line ucd_basic privet_at3 2\<rparr>"
  by (simp add: analyze_lines_def lines2_def glava_iv_records)
     (simp add: privet_at3_records)

lemma analyze_glava_iv:
  "analyze_lines ucd_basic [glava_iv] = \<lparr>total_lines = 1, anomalies = []\<rparr>"
  by (simp add: analyze_lines_def glava_iv_records)

theorem read_errors_not_fatal_witness:
  "fs_example 13 utf_8 = Returned [glava_iv]
   \<and> analyze_file ucd_basic fs_example 13 = Inr (analyze_lines ucd_basic [glava_iv])
   \<and> fs_example 12 utf_8 = UnicodeDecodeError (u ''invalid byte'')
   \<and> fs_example 12 cp1251 = Returned lines2
   \<and> analyze_file ucd_basic fs_example 12 = Inr (analyze_lines ucd_basic lines2)
   \<and> fs_example 11 utf_8 = UnicodeDecodeError (u ''invalid byte'')
   \<and> fs_example 11 cp1251 = UnicodeDecodeError (u ''invalid byte'')
   \<and> analyze_file ucd_basic fs_example 11 = Inl (could_not_read @ u ''invalid byte'')
   \<and> fs_example 10 utf_8 = OtherException (u ''Permission denied'')
   \<and> analyze_file ucd_basic fs_example 10 = Inl (error_reading @ u ''Permission denied'')
   \<and> main ucd_basic fs_example [10, 11, 12, 13] =
       Some ([(12, find_anomalies_in_line ucd_basic privet_at3 2)],
             [ErrorReport 10 (error_reading @ u ''Permission denied''),
              ErrorReport 11 (could_not_read @ u ''invalid byte''),
              FileReport 12 2])"
proof -
  have f3: "fs_example 13 utf_8 = Returned [glava_iv]"
    and f2: "fs_example 12 utf_8 = UnicodeDecodeError (u ''invalid byte'')
             \<and> fs_example 12 cp1251 = Returned lines2"
    and f1: "fs_example 11 utf_8 = UnicodeDecodeError (u ''invalid byte'')
             \<and> (\<forall>lines. fs_example 11 cp1251 \<noteq> Returned lines)"
    and f1': "fs_example 11 cp1251 = UnicodeDecodeError (u ''invalid byte'')"
    and f0: "fs_example 10 utf_8 = OtherException (u ''Permission denied'')"
    by (simp_all add: fs_example_def)
  have a3: "analyze_file ucd_basic fs_example 13 = Inr (analyze_lines ucd_basic [glava_iv])"
    using read_errors_not_fatal [of fs_example 13 ucd_basic fs_example "[10, 11, 12, 13]"] f3
    by blast
  have a2: "analyze_file ucd_basic fs_example 12 = Inr (analyze_lines ucd_basic lines2)"
    using read_errors_not_fatal [of fs_example 12 ucd_basic fs_example "[10, 11, 12, 13]"] f2
    by blast
  have "\<exists>e'. analyze_file ucd_basic fs_example 11 = Inl (could_not_read @ e')"
    using read_errors_not_fatal [of fs_example 11 ucd_basic fs_example "[10, 11, 12, 13]"] f1
    by blast
  then have a1: "analyze_file ucd_basic fs_example 11 = Inl (could_not_read @ u ''invalid byte'')"
    by (simp add: analyze_file_def f1 f1')
  have a0: "analyze_file ucd_basic fs_example 10 = Inl (error_reading @ u ''Permission denied'')"
    using read_errors_not_fatal [of fs_example 10 ucd_basic fs_example "[10, 11, 12, 13]"] f0
    by blast
  have "main ucd_basic fs_example [10, 11, 12, 13] =
      Some (concat (map (file_entry ucd_basic fs_example) [10, 11, 12, 13]),
            concat (map (file_console ucd_basic fs_example) [10, 11, 12, 13]))"
    using read_errors_not_fatal [of fs_example 10 ucd_basic fs_example "[10, 11, 12, 13]"]
    by simp
  then have m: "main ucd_basic fs_example [10, 11, 12, 13] =
       Some ([(12, find_anomalies_in_line ucd_basic privet_at3 2)],
             [ErrorReport 10 (error_reading @ u ''Permission denied''),
              ErrorReport 11 (could_not_read @ u ''invalid byte''),
              FileReport 12 2])"
    by (simp add: file_entry_def file_console_def a0 a1 a2 a3 analyze_lines2 analyze_glava_iv
        privet_at3_records)
  from f3 a3 f2 a2 f1 f1' a1 f0 a0 m show ?thesis by simp
qed

subsection \<open>The summary\<close>

lemma sort_by_count_set: "set (sort_by_count files) = set files"
  by (simp add: sort_by_count_def)

lemma sort_by_count_descending: "descending (sort_by_count files)"
proof -
  have "sorted (map (\<lambda>x. - int (snd x)) (sort_by_count files))"
    by (simp add: sort_by_count_def)
  then have "sorted_wrt (\<lambda>x y. - int (snd x) \<le> - int (snd y)) (sort_by_count files)"
    by (simp add: sorted_wrt_map)
  then show ?thesis
    unfolding descending_def by (rule sorted_wrt_mono_rel [rotated]) simp
qed

lemma entries_map_Entry:
  "entries (map (\<lambda>(filename, count). Entry filename count) files) = files"
  by (induction files) (auto simp: entries_def)

lemma entries_append [simp]: "entries (xs @ ys) = entries xs @ entries ys"
  by (simp add: entries_def)

lemma entries_Nil [simp]: "entries [] = []"
  by (simp add: entries_def)

lemma entries_Cons [simp]:
  "entries (l # ls) =
     (case l of Entry filename count \<Rightarrow> [(filename, count)] | _ \<Rightarrow> []) @ entries ls"
  by (simp add: entries_def)

lemma entries_section_all: "entries (section_all files) = files"
  by (cases "files = []") (simp_all add: section_all_def entries_map_Entry)

lemma entries_section_top20: "entries (section_top20 files) = take 20 files"
  by (cases "files = []") (simp_all add: section_top20_def entries_map_Entry)

text \<open>
  Claim C7, as amended. The list behind the third section holds exactly the files
  with more than 100 \<open>unusual_symbols\<close> hits, the list behind the fourth exactly
  those with more than 50 \<open>latin_in_russian\<close> hits, and all four lists of the
  summary are in descending order of count. Sections 1 and 2 list every file of their
  list; sections 3 and 4 list the first 20 files of theirs, so they name exactly the
  files over the threshold when there are at most 20 of them.
\<close>

theorem summary_threshold_sections:
  "set (files_with_unusual_symbols data) =
     {(filename, length (anomalies unusual_symbols)) | filename anomalies.
        (filename, anomalies) \<in> set data \<and> length (anomalies unusual_symbols) > 100}
   \<and> set (files_with_latin data) =
     {(filename, length (anomalies latin_in_russian)) | filename anomalies.
        (filename, anomalies) \<in> set data \<and> length (anomalies latin_in_russian) > 50}
   \<and> descending (files_with_tokens data) \<and> descending (files_with_multiple_unusual data)
   \<and> descending (files_with_unusual_symbols data) \<and> descending (files_with_latin data)
   \<and> entries (section_tokens data) = files_with_tokens data
   \<and> entries (section_multiple_unusual data) = files_with_multiple_unusual data
   \<and> entries (section_unusual_symbols data) = take 20 (files_with_unusual_symbols data)
   \<and> entries (section_latin data) = take 20 (files_with_latin data)
   \<and> (length (files_with_unusual_symbols data) \<le> 20 \<longrightarrow>
        set (entries (section_unusual_symbols data)) =
          {(filename, length (anomalies unusual_symbols)) | filename anomalies.
             (filename, anomalies) \<in> set data \<and> length (anomalies unusual_symbols) > 100})
   \<and> (length (files_with_latin data) \<le> 20 \<longrightarrow>
        set (entries (section_latin data)) =
          {(filename, length (anomalies latin_in_russian)) | filename anomalies.
             (filename, anomalies) \<in> set data \<and> length (anomalies latin_in_russian) > 50})"
proof -
  have un: "set (files_with_unusual_symbols data) =
     {(filename, length (anomalies unusual_symbols)) | filename anomalies.
        (filename, anomalies) \<in> set data \<and> length (anomalies unusual_symbols) > 100}"
    unfolding files_with_unusual_symbols_def sort_by_count_set by force
  have la: "set (files_with_latin data) =
     {(filename, length (anomalies latin_in_russian)) | filename anomalies.
        (filename, anomalies) \<in> set data \<and> length (anomalies latin_in_russian) > 50}"
    unfolding files_with_latin_def sort_by_count_set by force
  have de: "descending (files_with_tokens data)" "descending (files_with_multiple_unusual data)"
    "descending (files_with_unusual_symbols data)" "descending (files_with_latin data)"
    by (simp_all add: files_with_tokens_def files_with_multiple_unusual_def
        files_with_unusual_symbols_def files_with_latin_def sort_by_count_descending)
  have en: "entries (section_tokens data) = files_with_tokens data"
    "entries (section_multiple_unusual data) = files_with_multiple_unusual data"
    "entries (section_unusual_symbols data) = take 20 (files_with_unusual_symbols data)"
    "entries (section_latin data) = take 20 (files_with_latin data)"
    by (simp_all add: section_tokens_def section_multiple_unusual_def
        section_unusual_symbols_def section_latin_def entries_section_all entries_section_top20)
  from un la de en show ?thesis by simp
qed

text \<open>
  Three files: the sections name the two files over each threshold, the higher count
  first, and leave out the file with exactly 100 hits and the one with none.
\<close>

lemma data3_lists:
  "files_with_unusual_symbols data3 = [(u ''A'', 150), (u ''B'', 101)]"
  "files_with_latin data3 = [(u ''B'', 60), (u ''C'', 51)]"
  by (simp_all add: data3_def hits_def files_with_unusual_symbols_def files_with_latin_def
      sort_by_count_def u_def)

theorem summary_threshold_sections_witness:
  "length (files_with_unusual_symbols data3) \<le> 20
   \<and> length (files_with_latin data3) \<le> 20
   \<and> entries (section_unusual_symbols data3) = [(u ''A'', 150), (u ''B'', 101)]
   \<and> entries (section_latin data3) = [(u ''B'', 60), (u ''C'', 51)]
   \<and> set (entries (section_unusual_symbols data3)) =
       {(filename, length (anomalies unusual_symbols)) | filename anomalies.
          (filename, anomalies) \<in> set data3 \<and> length (anomalies unusual_symbols) > 100}
   \<and> set (entries (section_latin data3)) =
       {(filename, length (anomalies latin_in_russian)) | filename anomalies.
          (filename, anomalies) \<in> set data3 \<and> length (anomalies latin_in_russian) > 50}"
proof -
  have a: "length (files_with_unusual_symbols data3) \<le> 20"
    and b: "length (files_with_latin data3) \<le> 20"
    by (simp_all add: data3_lists)
  from summary_threshold_sections [of data3] a b show ?thesis
    by (simp add: data3_lists)
qed

text \<open>
  The claim as it was stated fails once more than 20 files pass a threshold: of 21
  files with 101 hits each, the last one has more than 100 hits and no entry in the
  third section, which lists 20 files.
\<close>

theorem summary_section_counterexample:
  "data21 \<noteq> [] \<and> ([85], hits 101 0) \<in> set data21
   \<and> length (hits 101 0 unusual_symbols) > 100
   \<and> ([85], 101) \<notin> set (entries (section_unusual_symbols data21))
   \<and> length (entries (section_unusual_symbols data21)) = 20
   \<and> length (files_with_unusual_symbols data21) = 21"
  by (simp add: data21_def hits_def upt_rec section_unusual_symbols_def entries_section_top20
      files_with_unusual_symbols_def sort_by_count_def)

subsection \<open>The scenario line\<close>

text \<open>
  The claim C5 as it was stated fails: the line of the scenario has three Latin
  letters, not four, and the classifier reports nothing for it.
\<close>

theorem privet_xyz_counterexample:
  "length (filter (\<lambda>c. isalpha ucd_basic c \<and> c < 128) privet_xyz_mir) = 3
   \<and> find_anomalies_in_line ucd_basic privet_xyz_mir 1 = []"
  by (simp add: privet_xyz_mir_def eval_text eval_regex eval_patterns eval_sets eval_line)

text \<open>
  Claim C5, as amended. For the line \<open>Privet XYZ mir\<close>, which holds three Latin
  letters, the classifier returns no record at any line number: three letters do not
  exceed the threshold of three. With four Latin letters, \<open>Privet WXYZ mir\<close>, it
  returns one \<open>latin_in_russian\<close> record with the given line number, whose detail
  list holds the four offsets 7 to 10 with their letters.
\<close>

theorem privet_scenario:
  "find_anomalies_in_line ucd_basic privet_xyz_mir line_num = []
   \<and> length (latin_chars ucd_basic privet_xyz_mir) = 3
   \<and> find_anomalies_in_line ucd_basic privet_wxyz_mir line_num =
       [\<lparr>a_type = latin_in_russian, a_line_num = line_num,
         a_chars = Some (LatinChars [(7, 87), (8, 88), (9, 89), (10, 90)]),
         a_line = privet_wxyz_mir\<rparr>]"
  by (simp add: privet_xyz_mir_def privet_wxyz_mir_def
      eval_text eval_regex eval_patterns eval_sets eval_line)

subsection \<open>Lines of the base64 alphabet\<close>

lemma length_strip_le: "length (strip s) \<le> length s"
proof -
  have "length (strip s) \<le> length (dropWhile isspace s)"
    by (simp add: strip_def length_dropWhile_le del: dropWhile_eq_Nil_conv)
       (metis length_dropWhile_le length_rev)
  also have "\<dots> \<le> length s" by (rule length_dropWhile_le)
  finally show ?thesis .
qed

text \<open>
  Whatever the character table: a line whose trimmed content has 40 characters or
  fewer is never reported as \<open>token_like\<close>, because \<open>is_base64_like\<close> asks for more
  than 40 characters after it has let exactly 40 pass its first test.
\<close>

lemma token_needs_more_than_40:
  assumes "length (strip line) \<le> 40"
  shows "token_like \<notin> set (map a_type (find_anomalies_in_line U line line_num))"
proof -
  have "length (strip (strip line)) \<le> 40"
    using assms length_strip_le [of "strip line"] by simp
  then have "\<not> is_base64_like (strip line)" by (simp add: is_base64_like_def Let_def)
  then show ?thesis by (auto simp: find_anomalies_in_line_def Let_def)
qed

text \<open>
  From 41 characters on the claim holds, for every table that keeps the base64
  alphabet apart from the chapter patterns: a line whose trimmed content has more than
  40 characters, all of the base64 alphabet, one of them \<open>=\<close> or \<open>/\<close>, gets exactly
  one record, of kind \<open>token_like\<close>.
\<close>

lemma rep_blocked:
  assumes "x \<in> set s" "\<not> cset_matches U cs x" "x \<noteq> 10"
  shows "re_at U [Rep cs lo hi, Eol] prev s = None"
  using assms(1)
proof (induction s arbitrary: lo hi prev)
  case Nil
  then show ?case by simp
next
  case (Cons c s)
  have stop: "re_at U [Eol] prev (c # s) = None"
  proof (cases "c # s = [10]")
    case True
    with Cons.prems assms(3) show ?thesis by auto
  next
    case False
    then show ?thesis by simp
  qed
  show ?case
  proof (cases "hi \<noteq> Some 0 \<and> cset_matches U cs c")
    case True
    with assms(2) Cons.prems have "x \<in> set s" by auto
    then have "re_at U [Rep cs (lo - 1) (map_option (\<lambda>h. h - 1) hi), Eol] (Some c) s = None"
      by (rule Cons.IH)
    with True stop show ?thesis by simp
  next
    case False
    with stop show ?thesis by auto
  qed
qed

lemma base64_not_space: "c \<in> base64_chars \<Longrightarrow> \<not> isspace c"
proof -
  have "list_all (\<lambda>c. \<not> isspace c)
      (u ''ABCDEFGHIJKLMNOPQRSTUVWXYZabcdefghijklmnopqrstuvwxyz0123456789+/='')"
    by (simp add: u_def isspace_def)
  then show "c \<in> base64_chars \<Longrightarrow> \<not> isspace c"
    unfolding base64_chars_def list_all_iff by blast
qed

lemma strip_no_space:
  assumes "list_all (\<lambda>c. \<not> isspace c) s"
  shows "strip s = s"
proof -
  have keep: "dropWhile isspace t = t" if "list_all (\<lambda>c. \<not> isspace c) t" for t
    using that by (cases t) simp_all
  from assms have "list_all (\<lambda>c. \<not> isspace c) (rev s)" by (simp add: list_all_iff)
  with assms keep show ?thesis by (simp add: strip_def)
qed

lemma base64_apart_basic: "base64_apart ucd_basic"
  by (simp add: base64_apart_def ucd_basic_def u_def roman_items_def literal_ignore_def)

lemma token_like_from_41:
  assumes db: "base64_apart U"
    and len: "length (strip line) > 40"
    and chars: "set (strip line) \<subseteq> base64_chars"
    and sign: "61 \<in> set (strip line) \<or> 47 \<in> set (strip line)"
  shows "find_anomalies_in_line U line line_num =
           [\<lparr>a_type = token_like, a_line_num = line_num, a_chars = None, a_line = strip line\<rparr>]"
proof -
  let ?s = "strip line"
  from len obtain c s' where s: "?s = c # s'" by (cases ?s) auto
  with chars have c: "c \<in> base64_chars" by auto
  have apart: "\<not> cset_matches U (InIgnore [Ch 1043, Ch 1063]) c"
    using db c unfolding base64_apart_def base64_chars_def list_all_iff by blast
  then have g: "\<not> cset_matches U (InIgnore [Ch 1043]) c"
    and ch: "\<not> cset_matches U (InIgnore [Ch 1063]) c"
    by simp_all
  from sign obtain x where x: "x \<in> set ?s" "x = 61 \<or> x = 47" by auto
  with db have xd: "\<not> cset_matches U (In [Digit]) x"
    and xr: "\<not> cset_matches U (InIgnore roman_items) x"
    by (auto simp: base64_apart_def)
  from x have x10: "x \<noteq> 10" by auto
  have p1: "\<not> re_match U [Bol, Rep (InIgnore roman_items) 1 None, Eol] ?s"
    using rep_blocked [OF x(1) xr x10] by (simp add: re_match_def)
  have p5: "\<not> re_match U [Bol, Rep (In [Digit]) 1 None, Eol] ?s"
    using rep_blocked [OF x(1) xd x10] by (simp add: re_match_def)
  have p2: "\<not> re_match U (Bol # literal_word [1043, 1051, 1040, 1042, 1040]
        @ [Rep (In [Space]) 1 None, Rep (InIgnore (roman_items @ [Digit])) 1 None]) ?s"
    using g by (simp add: re_match_def s literal_word_def)
  have p3: "\<not> re_match U (Bol # literal_word [1063, 1040, 1057, 1058, 1068]
        @ [Rep (In [Space]) 1 None, Rep (InIgnore (roman_items @ [Digit])) 1 None]) ?s"
    using ch by (simp add: re_match_def s literal_word_def)
  have p4: "\<not> re_match U [Bol, One (InIgnore [Ch 1043, Ch 1063]), Rep (In [Space]) 0 None,
       Rep (InIgnore (roman_items @ [Digit])) 1 None] ?s"
    using apart by (simp add: re_match_def s)
  from p1 p2 p3 p4 p5
  have "\<not> list_ex (\<lambda>pattern. re_match U pattern ?s) CHAPTER_PATTERNS"
    by (simp add: CHAPTER_PATTERNS_def)
  with len have no_title: "\<not> is_likely_chapter_title U line"
    by (simp add: is_likely_chapter_title_def)
  from chars have "list_all (\<lambda>c. \<not> isspace c) ?s"
    by (auto simp: list_all_iff dest: base64_not_space)
  then have "strip ?s = ?s" by (rule strip_no_space)
  with len chars sign have "is_base64_like ?s" by (simp add: is_base64_like_def)
  with no_title s show ?thesis by (simp add: find_anomalies_in_line_def)
qed

text \<open>
  Claim C1 at a line of exactly 40 characters of the base64 alphabet with an equals
  sign: the claim asks for one \<open>token_like\<close> record, the classifier returns none.
\<close>

theorem token40_not_reported:
  "length (strip token40) = 40 \<and> set (strip token40) \<subseteq> base64_chars
   \<and> 61 \<in> set (strip token40)
   \<and> find_anomalies_in_line ucd_basic token40 line_num = []"
  by (simp add: token40_def eval_text eval_regex eval_patterns eval_sets eval_line)

subsection \<open>Lines without Cyrillic letters\<close>

text \<open>
  The check of Latin and other characters runs only for a line with a character of
  \<open>RUSSIAN_CHARS\<close>; without one, neither of its two kinds is reported.
\<close>

lemma no_russian_chars_no_detail_records:
  assumes "\<not> has_russian line"
  shows "latin_in_russian \<notin> set (map a_type (find_anomalies_in_line U line line_num))
         \<and> unusual_symbols \<notin> set (map a_type (find_anomalies_in_line U line line_num))"
  using assms by (auto simp: find_anomalies_in_line_def Let_def)

text \<open>
  Claim C2 at a line of ASCII characters only, one of them a digit: the claim asks
  for no \<open>latin_in_russian\<close> and no \<open>unusual_symbols\<close> record, the classifier
  returns one of each, because \<open>RUSSIAN_CHARS\<close> holds the digits too.
\<close>

theorem digit_counts_as_russian:
  "list_all (\<lambda>c. c < 128) hello_world_1
   \<and> has_russian hello_world_1
   \<and> map a_type (find_anomalies_in_line ucd_basic hello_world_1 line_num) =
       [latin_in_russian, unusual_symbols]"
  by (simp add: hello_world_1_def eval_text eval_regex eval_patterns eval_sets eval_line)

subsection \<open>Abbreviations\<close>

text \<open>A line that \<open>is_normal_latin_usage\<close> accepts gets no \<open>latin_in_russian\<close> record.\<close>

lemma normal_latin_usage_no_record:
  assumes "is_normal_latin_usage U line"
  shows "latin_in_russian \<notin> set (map a_type (find_anomalies_in_line U line line_num))"
  using assms by (auto simp: find_anomalies_in_line_def Let_def)

text \<open>
  An upper-cased word holds no lower-case ASCII letter, so of the abbreviations only
  \<open>ISBN\<close> and \<open>ISBN:\<close> can equal one; the entries written in lower case never do.
\<close>

lemma upper_in_common_abbrevs:
  assumes "upper w \<in> common_abbrevs"
  shows "upper w = u ''ISBN'' \<or> upper w = u ''ISBN:''"
proof -
  have no_lower: "\<not> (97 \<le> c \<and> c \<le> 122)" if "c \<in> set (upper w)" for c
    using that by (auto simp: upper_def)
  have "upper w \<noteq> x" if "111 \<in> set x \<or> 112 \<in> set x \<or> 119 \<in> set x \<or> 114 \<in> set x
      \<or> 110 \<in> set x" for x
    using that no_lower by fastforce
  then have "upper w \<noteq> u ''http''" "upper w \<noteq> u ''https''" "upper w \<noteq> u ''www''"
    "upper w \<noteq> u ''com''" "upper w \<noteq> u ''ru''" "upper w \<noteq> u ''org''" "upper w \<noteq> u ''net''"
    by (simp_all add: u_def)
  with assms show ?thesis by (auto simp: common_abbrevs_def)
qed

text \<open>
  So the last test of \<open>is_normal_latin_usage\<close> accepts a line exactly when it has a
  word and each of its words has at most three letters or is \<open>ISBN\<close> in some mix of
  cases (a word, made of letters, never equals \<open>ISBN:\<close> either way).
\<close>

lemma short_words_are_normal:
  assumes "re_findall U word_pattern line \<noteq> []"
    and "list_all (\<lambda>w. length w \<le> 3 \<or> upper w = u ''ISBN'') (re_findall U word_pattern line)"
  shows "is_normal_latin_usage U line"
proof -
  have "u ''ISBN'' \<in> common_abbrevs" by (simp add: common_abbrevs_def)
  with assms(2)
  have "list_all (\<lambda>w. upper w \<in> common_abbrevs \<or> length w \<le> 3) (re_findall U word_pattern line)"
    by (auto simp: list_all_iff)
  with assms(1) show ?thesis by (simp add: is_normal_latin_usage_def Let_def)
qed

text \<open>
  Claim C9 at a line whose only Latin word is \<open>http\<close>, one of the listed
  abbreviations: the claim asks for no \<open>latin_in_russian\<close> record, the classifier
  returns one, because the word is compared in upper case with a set that lists
  \<open>http\<close> in lower case.
\<close>

theorem http_not_an_abbreviation:
  "re_findall ucd_basic word_pattern sm_http_tut = [u ''http'']
   \<and> u ''http'' \<in> common_abbrevs
   \<and> upper (u ''http'') \<notin> common_abbrevs
   \<and> map a_type (find_anomalies_in_line ucd_basic sm_http_tut line_num) = [latin_in_russian]"
  by (simp add: sm_http_tut_def eval_text eval_regex eval_patterns eval_sets eval_line)

end
